theory Spec2Isabelle
  imports Complex_Main
begin

section \<open>Shared data model\<close>

text \<open>
  Exceptions of the two modules, as values. \<open>ValueError\<close> carries the tree path that the
  message of \<open>maybe_constrain\<close> names, \<open>KeyError\<close> the missing mesh axis and \<open>ReError\<close> the
  regex that \<open>re.compile\<close> refused.
\<close>

datatype error =
    ValueError string
  | TypeError
  | IndexError
  | KeyError string
  | ZeroDivisionError
  | ReError string
  | NotImplementedError
  | AssertionError

text \<open>
  A \<open>Tensor\<close> as the code reads it: \<open>value.shape\<close>, \<open>value.ndim\<close>, and everything else
  (values, dtype, sharding annotations) in \<open>content\<close>.
\<close>

record 'a tensor =
  shape :: "nat list"
  content :: 'a

definition ndim :: "'a tensor \<Rightarrow> nat" where
  "ndim value = length (shape value)"

text \<open>
  \<open>Nested[Tensor]\<close>: a tensor, or a dict from string keys to nested values. The items of
  a dict are listed in the order in which \<open>jax.tree.map\<close> visits them.
\<close>

datatype 'a nested = Leaf 'a | Dict "(string \<times> 'a nested) list"

text \<open>
  One entry of a \<open>PartitionSpec\<close> is \<open>None\<close>, one mesh axis name, or a tuple of names.
  \<open>tree_leaves\<close> is \<open>jax.tree.leaves\<close> on such an entry.
\<close>

datatype axis_entry = NoAxis | Axis string | Axes "string list"

datatype pspec = PartitionSpec "axis_entry list"

fun tree_leaves :: "axis_entry \<Rightarrow> string list" where
  "tree_leaves NoAxis = []"
| "tree_leaves (Axis a) = [a]"
| "tree_leaves (Axes as) = as"

text \<open>
  The value side of a partitioning rule: the sentinel \<open>PartitionSpec.UNCONSTRAINED\<close>, or
  what is handed to \<open>with_sharding_constraint\<close> (a \<open>PartitionSpec\<close>, or \<open>None\<close> for
  replication).
\<close>

datatype rule_spec = UNCONSTRAINED | Constrain "pspec option"

text \<open>
  \<open>thread_resources.env.physical_mesh\<close>, with the three attributes the code reads.
  \<open>mesh_shape\<close> maps axis names to sizes.
\<close>

record mesh =
  mesh_empty :: bool
  mesh_size :: nat
  mesh_shape :: "(string \<times> nat) list"

text \<open>
  The \<open>absl\<close> log. \<open>first_n_count\<close> is the counter that \<open>logging.log_first_n\<close> keeps for
  its one call site in \<open>maybe_constrain\<close>.
\<close>

datatype log_line =
    Info string rule_spec
  | Warning string nat nat pspec

record log =
  first_n_count :: nat
  log_lines :: "log_line list"

definition log_first_n :: "nat \<Rightarrow> log_line \<Rightarrow> log \<Rightarrow> log" where
  "log_first_n n line lg =
     lg\<lparr>first_n_count := Suc (first_n_count lg),
        log_lines := (if first_n_count lg < n then log_lines lg @ [line] else log_lines lg)\<rparr>"

definition log_warning :: "log_line \<Rightarrow> log \<Rightarrow> log" where
  "log_warning line lg = lg\<lparr>log_lines := log_lines lg @ [line]\<rparr>"

section \<open>Pytrees: \<open>tree_paths\<close> and \<open>jax.tree.map\<close>\<close>

text \<open>The path of the key \<open>k\<close> below the path \<open>prefix\<close>.\<close>

definition join_path :: "string \<Rightarrow> string \<Rightarrow> string" where
  "join_path prefix k = (if prefix = [] then k else prefix @ ''/'' @ k)"

text \<open>
  \<open>tree_paths\<close> and \<open>jax.tree.map\<close> are library functions that \<open>input_base.py\<close> imports;
  they are written out here on trees of nested dicts, as their documentation describes
  them. \<open>tree_paths\<close> returns a tree of the same structure whose leaves are the paths of
  the leaves, the keys joined by \<open>/\<close>; the path of a batch that is a single tensor is
  the empty string.
\<close>

fun tree_paths_at :: "string \<Rightarrow> 'a nested \<Rightarrow> string nested"
  and tree_paths_items :: "string \<Rightarrow> (string \<times> 'a nested) list \<Rightarrow> (string \<times> string nested) list"
where
  "tree_paths_at prefix (Leaf v) = Leaf prefix"
| "tree_paths_at prefix (Dict items) = Dict (tree_paths_items prefix items)"
| "tree_paths_items prefix [] = []"
| "tree_paths_items prefix ((k, t) # items) =
     (k, tree_paths_at (join_path prefix k) t) # tree_paths_items prefix items"

definition tree_paths :: "'a nested \<Rightarrow> string nested" where
  "tree_paths t = tree_paths_at [] t"

fun leaves :: "'a nested \<Rightarrow> 'a list"
  and leaves_items :: "(string \<times> 'a nested) list \<Rightarrow> 'a list"
where
  "leaves (Leaf v) = [v]"
| "leaves (Dict items) = leaves_items items"
| "leaves_items [] = []"
| "leaves_items ((k, t) # items) = leaves t @ leaves_items items"

text \<open>
  \<open>jax.tree.map(f, paths, tree)\<close> for an \<open>f\<close> that may raise and that logs: the leaves are
  visited in order, the log is threaded through, and the first exception ends the map.
  Two trees of different structure are a \<open>ValueError\<close>.
\<close>

fun tree_map ::
    "(string \<Rightarrow> 'a \<Rightarrow> 's \<Rightarrow> error + 'b \<times> 's) \<Rightarrow> string nested \<Rightarrow> 'a nested \<Rightarrow> 's
      \<Rightarrow> error + 'b nested \<times> 's"
  and tree_map_items ::
    "(string \<Rightarrow> 'a \<Rightarrow> 's \<Rightarrow> error + 'b \<times> 's) \<Rightarrow> (string \<times> string nested) list
      \<Rightarrow> (string \<times> 'a nested) list \<Rightarrow> 's \<Rightarrow> error + (string \<times> 'b nested) list \<times> 's"
where
  "tree_map f (Leaf p) (Leaf v) s =
     (case f p v s of Inl e \<Rightarrow> Inl e | Inr (r, s') \<Rightarrow> Inr (Leaf r, s'))"
| "tree_map f (Dict ps) (Dict vs) s =
     (case tree_map_items f ps vs s of Inl e \<Rightarrow> Inl e | Inr (rs, s') \<Rightarrow> Inr (Dict rs, s'))"
| "tree_map f (Leaf p) (Dict vs) s = Inl (ValueError ''tree structure mismatch'')"
| "tree_map f (Dict ps) (Leaf v) s = Inl (ValueError ''tree structure mismatch'')"
| "tree_map_items f [] [] s = Inr ([], s)"
| "tree_map_items f ((k, p) # ps) ((k', v) # vs) s =
     (if k \<noteq> k' then Inl (ValueError ''tree structure mismatch'')
      else case tree_map f p v s of
             Inl e \<Rightarrow> Inl e
           | Inr (r, s') \<Rightarrow>
               (case tree_map_items f ps vs s' of
                  Inl e \<Rightarrow> Inl e
                | Inr (rs, s'') \<Rightarrow> Inr ((k', r) # rs, s'')))"
| "tree_map_items f [] (x # vs) s = Inl (ValueError ''tree structure mismatch'')"
| "tree_map_items f (x # ps) [] s = Inl (ValueError ''tree structure mismatch'')"

section \<open>\<open>input_base.py\<close>: \<open>partition_by_path_rank\<close>\<close>

text \<open>
  \<open>PathAndRank.path\<close> is \<open>Optional[Union[str, re.Pattern]]\<close>. \<open>Pattern s\<close> is the compiled
  pattern object of the regex \<open>s\<close>; two pattern objects of one regex are equal as
  dict keys. The regex engine itself is a parameter: \<open>valid s\<close> says that \<open>re.compile\<close>
  accepts the string \<open>s\<close>, \<open>fullmatch s path\<close> that \<open>re.fullmatch\<close> of the pattern of
  \<open>s\<close> on \<open>path\<close> returns a match.
\<close>

datatype pattern = Pattern string

datatype path_regex = Str string | Compiled pattern

type_synonym path_and_rank = "path_regex option \<times> int option"

type_synonym compiled_key = "pattern option \<times> int option"

fun re_compile :: "(string \<Rightarrow> bool) \<Rightarrow> path_regex \<Rightarrow> error + pattern" where
  "re_compile valid (Str s) = (if valid s then Inr (Pattern s) else Inl (ReError s))"
| "re_compile valid (Compiled p) = Inr p"

fun re_fullmatch :: "(string \<Rightarrow> string \<Rightarrow> bool) \<Rightarrow> pattern \<Rightarrow> string \<Rightarrow> bool" where
  "re_fullmatch fullmatch (Pattern s) path = fullmatch s path"

text \<open>
  \<open>d[k] = v\<close> on an insertion-ordered dict: an existing key keeps its position and gets
  the new value, a new key goes to the end.
\<close>

fun dict_setitem :: "'k \<Rightarrow> 'v \<Rightarrow> ('k \<times> 'v) list \<Rightarrow> ('k \<times> 'v) list" where
  "dict_setitem k v [] = [(k, v)]"
| "dict_setitem k v ((k', v') # items) =
     (if k' = k then (k', v) # items else (k', v') # dict_setitem k v items)"

text \<open>The loop of lines 83 to 87 that fills \<open>compiled\<close>.\<close>

fun compile_rules ::
    "(string \<Rightarrow> bool) \<Rightarrow> (path_and_rank \<times> rule_spec) list \<Rightarrow> (compiled_key \<times> rule_spec) list
      \<Rightarrow> error + (compiled_key \<times> rule_spec) list"
where
  "compile_rules valid [] compiled = Inr compiled"
| "compile_rules valid (((regex, rank), spec) # rest) compiled =
     (case regex of
        None \<Rightarrow> compile_rules valid rest (dict_setitem (None, rank) spec compiled)
      | Some r \<Rightarrow>
          (case re_compile valid r of
             Inl e \<Rightarrow> Inl e
           | Inr p \<Rightarrow> compile_rules valid rest (dict_setitem (Some p, rank) spec compiled)))"

text \<open>
  \<open>len(input_batch)\<close>, the third argument of \<open>logging.log_first_n\<close>: the number of keys
  of a dict, the first dimension of a tensor, and a \<open>TypeError\<close> on a tensor of rank 0.
\<close>

fun len :: "'a tensor nested \<Rightarrow> error + nat" where
  "len (Dict items) = Inr (length items)"
| "len (Leaf value) = (case shape value of [] \<Rightarrow> Inl TypeError | d # ds \<Rightarrow> Inr d)"

text \<open>
  \<open>maybe_constrain\<close>: the loop over \<open>compiled.items()\<close>. \<open>wsc\<close> is
  \<open>with_sharding_constraint\<close>, a primitive of the runtime.
\<close>

fun maybe_constrain ::
    "(string \<Rightarrow> string \<Rightarrow> bool) \<Rightarrow> ('a tensor \<Rightarrow> pspec option \<Rightarrow> 'a tensor)
      \<Rightarrow> (compiled_key \<times> rule_spec) list \<Rightarrow> 'a tensor nested
      \<Rightarrow> string \<Rightarrow> 'a tensor \<Rightarrow> log \<Rightarrow> error + 'a tensor \<times> log"
where
  "maybe_constrain fullmatch wsc [] input_batch path value lg = Inl (ValueError path)"
| "maybe_constrain fullmatch wsc (((path_regex, rank), partition_spec) # rest) input_batch path value lg =
     (if \<not> (case rank of None \<Rightarrow> True | Some r \<Rightarrow> int (ndim value) = r)
         \<or> \<not> (case path_regex of None \<Rightarrow> True | Some p \<Rightarrow> re_fullmatch fullmatch p path)
      then maybe_constrain fullmatch wsc rest input_batch path value lg
      else case partition_spec of
             UNCONSTRAINED \<Rightarrow> Inr (value, lg)
           | Constrain ps \<Rightarrow>
               (case len input_batch of
                  Inl e \<Rightarrow> Inl e
                | Inr n \<Rightarrow> Inr (wsc value ps, log_first_n n (Info path partition_spec) lg)))"

text \<open>
  The inner function \<open>fn\<close> that \<open>partition_by_path_rank\<close> returns, over the
  \<open>compiled\<close> rules it closes over, and \<open>partition_by_path_rank\<close> itself.
\<close>

definition partition_fn ::
    "(string \<Rightarrow> string \<Rightarrow> bool) \<Rightarrow> ('a tensor \<Rightarrow> pspec option \<Rightarrow> 'a tensor)
      \<Rightarrow> (compiled_key \<times> rule_spec) list
      \<Rightarrow> mesh \<Rightarrow> 'a tensor nested \<Rightarrow> log \<Rightarrow> error + 'a tensor nested \<times> log"
where
  "partition_fn fullmatch wsc compiled mesh input_batch lg =
     (if mesh_empty mesh \<or> mesh_size mesh = 1 then Inr (input_batch, lg)
      else tree_map (maybe_constrain fullmatch wsc compiled input_batch)
             (tree_paths input_batch) input_batch lg)"

definition partition_by_path_rank ::
    "(string \<Rightarrow> bool) \<Rightarrow> (string \<Rightarrow> string \<Rightarrow> bool) \<Rightarrow> ('a tensor \<Rightarrow> pspec option \<Rightarrow> 'a tensor)
      \<Rightarrow> (path_and_rank \<times> rule_spec) list
      \<Rightarrow> error + (mesh \<Rightarrow> 'a tensor nested \<Rightarrow> log \<Rightarrow> error + 'a tensor nested \<times> log)"
where
  "partition_by_path_rank valid fullmatch wsc path_rank_to_partition =
     (case compile_rules valid path_rank_to_partition [] of
        Inl e \<Rightarrow> Inl e
      | Inr compiled \<Rightarrow> Inr (partition_fn fullmatch wsc compiled))"

section \<open>\<open>input_base.py\<close>: \<open>Input\<close>\<close>

text \<open>
  The methods of the input dispatcher that \<open>Input\<close> calls, and the attributes of an
  \<open>Input\<close> instance: \<open>_partition_spec\<close>, the child \<open>input_dispatcher\<close> (present in
  \<open>self.children\<close> exactly when it is configured) and \<open>_input_partitioner\<close>. What
  \<open>Input\<close> calls outside \<open>input_base.py\<close> (the dispatcher, \<open>dispatch_input_batch\<close>,
  \<open>as_numpy_array\<close>, \<open>with_sharding_constraint\<close>) is a parameter of the model, a function
  that returns; an input partitioner may raise, as the one of \<open>partition_by_path_rank\<close>
  does.
\<close>

record 'b dispatcher =
  logical_to_physical_batch :: "'b \<Rightarrow> 'b"
  physical_to_logical_batch :: "'b \<Rightarrow> 'b"

record 'a Input =
  partition_spec :: pspec
  input_dispatcher :: "'a tensor nested dispatcher option"
  input_partitioner ::
    "(mesh \<Rightarrow> 'a tensor nested \<Rightarrow> log \<Rightarrow> error + 'a tensor nested \<times> log) option"

text \<open>\<open>self._partition_spec[0]\<close>.\<close>

fun getitem0 :: "pspec \<Rightarrow> error + axis_entry" where
  "getitem0 (PartitionSpec []) = Inl IndexError"
| "getitem0 (PartitionSpec (e # es)) = Inr e"

text \<open>\<open>math.prod(mesh.shape[axis] for axis in ...)\<close>; a missing axis is a \<open>KeyError\<close>.\<close>

fun prod_mesh_shape :: "(string \<times> nat) list \<Rightarrow> string list \<Rightarrow> error + nat" where
  "prod_mesh_shape sh [] = Inr 1"
| "prod_mesh_shape sh (axis # axes) =
     (case map_of sh axis of
        None \<Rightarrow> Inl (KeyError axis)
      | Some n \<Rightarrow> (case prod_mesh_shape sh axes of Inl e \<Rightarrow> Inl e | Inr m \<Rightarrow> Inr (n * m)))"

definition constrain_batch_axis ::
    "('a tensor \<Rightarrow> pspec option \<Rightarrow> 'a tensor) \<Rightarrow> 'a Input \<Rightarrow> mesh
      \<Rightarrow> string \<Rightarrow> 'a tensor \<Rightarrow> log \<Rightarrow> error + 'a tensor \<times> log"
where
  "constrain_batch_axis wsc self mesh path value lg =
     (case getitem0 (partition_spec self) of
        Inl e \<Rightarrow> Inl e
      | Inr entry \<Rightarrow>
          (case prod_mesh_shape (mesh_shape mesh) (tree_leaves entry) of
             Inl e \<Rightarrow> Inl e
           | Inr batch_partitions \<Rightarrow>
               (case shape value of
                  [] \<Rightarrow> Inl IndexError
                | d # ds \<Rightarrow>
                    if batch_partitions = 0 then Inl ZeroDivisionError
                    else Inr (wsc value (Some (partition_spec self)),
                              if d mod batch_partitions \<noteq> 0
                              then log_warning
                                     (Warning path d batch_partitions (partition_spec self)) lg
                              else lg))))"

text \<open>
  \<open>jax.tree.map(constrain_batch_axis, tree_paths(batch), batch)\<close>, which
  \<open>dispatch_global_batch\<close> writes out twice.
\<close>

definition constrain_batch ::
    "('a tensor \<Rightarrow> pspec option \<Rightarrow> 'a tensor) \<Rightarrow> 'a Input \<Rightarrow> mesh
      \<Rightarrow> 'a tensor nested \<Rightarrow> log \<Rightarrow> error + 'a tensor nested \<times> log"
where
  "constrain_batch wsc self mesh batch lg =
     tree_map (constrain_batch_axis wsc self mesh) (tree_paths batch) batch lg"

text \<open>
  \<open>Input.dispatch_global_batch\<close>. \<open>dispatch_input_batch\<close> (from \<open>axlearn.common.utils\<close>)
  takes the batch and \<open>batch_axis_names\<close>.
\<close>

definition dispatch_global_batch ::
    "('a tensor \<Rightarrow> pspec option \<Rightarrow> 'a tensor)
      \<Rightarrow> ('a tensor nested \<Rightarrow> axis_entry \<Rightarrow> 'a tensor nested)
      \<Rightarrow> 'a Input \<Rightarrow> mesh \<Rightarrow> 'a tensor nested \<Rightarrow> log \<Rightarrow> error + 'a tensor nested \<times> log"
where
  "dispatch_global_batch wsc dispatch_input_batch self mesh global_physical_batch lg =
     (case (case input_dispatcher self of
              Some d \<Rightarrow>
                (case constrain_batch wsc self mesh global_physical_batch lg of
                   Inl e \<Rightarrow> Inl e
                 | Inr (constrained, lg') \<Rightarrow> Inr (physical_to_logical_batch d constrained, lg'))
            | None \<Rightarrow>
                (case getitem0 (partition_spec self) of
                   Inl e \<Rightarrow> Inl e
                 | Inr batch_axis_names \<Rightarrow>
                     Inr (dispatch_input_batch global_physical_batch batch_axis_names, lg)))
      of
        Inl e \<Rightarrow> Inl e
      | Inr (global_logical_batch, lg1) \<Rightarrow>
          (case constrain_batch wsc self mesh global_logical_batch lg1 of
             Inl e \<Rightarrow> Inl e
           | Inr (global_logical_batch', lg2) \<Rightarrow>
               (case input_partitioner self of
                  None \<Rightarrow> Inr (global_logical_batch', lg2)
                | Some partitioner \<Rightarrow> partitioner mesh global_logical_batch' lg2)))"

text \<open>
  \<open>Input.batches\<close> is a generator over an iterator. An iterator is a state with a
  \<open>next\<close> function (\<open>None\<close> when it is exhausted); \<open>batches_next\<close> is one resumption of
  the generator, and \<open>take_iter n\<close> collects what the first \<open>n\<close> calls of \<open>next\<close> give.
\<close>

definition batches_next ::
    "('a tensor nested \<Rightarrow> 'a tensor nested) \<Rightarrow> 'a Input
      \<Rightarrow> ('it \<Rightarrow> ('a tensor nested \<times> 'it) option)
      \<Rightarrow> 'it \<Rightarrow> ('a tensor nested \<times> 'it) option"
where
  "batches_next as_numpy_array self nxt it =
     (case nxt it of
        None \<Rightarrow> None
      | Some (input_batch, it') \<Rightarrow>
          (let input_batch = as_numpy_array input_batch;
               input_batch = (case input_dispatcher self of
                                Some d \<Rightarrow> logical_to_physical_batch d input_batch
                              | None \<Rightarrow> input_batch)
           in Some (input_batch, it')))"

fun take_iter :: "('it \<Rightarrow> ('b \<times> 'it) option) \<Rightarrow> nat \<Rightarrow> 'it \<Rightarrow> 'b list" where
  "take_iter nxt 0 it = []"
| "take_iter nxt (Suc n) it =
     (case nxt it of None \<Rightarrow> [] | Some (x, it') \<Rightarrow> x # take_iter nxt n it')"

section \<open>\<open>tpu_attention_benchmark.py\<close>\<close>

text \<open>
  \<open>_time_call\<close>. The callable is a transformer of the state of the world, which holds
  whatever \<open>fn().block_until_ready()\<close> does; it is a callable that returns (one that
  raises would end \<open>_time_call\<close> with its exception). \<open>perf_counter\<close> reads the clock of
  a state. Times are real numbers. \<open>repeat_call\<close> is the loop over \<open>range(num_iters)\<close>,
  which is empty for \<open>num_iters \<le> 0\<close>; the division raises for \<open>num_iters = 0\<close>.
\<close>

fun repeat_call :: "('s \<Rightarrow> 's) \<Rightarrow> nat \<Rightarrow> 's \<Rightarrow> 's" where
  "repeat_call fn 0 s = s"
| "repeat_call fn (Suc n) s = repeat_call fn n (fn s)"

definition time_call :: "('s \<Rightarrow> real) \<Rightarrow> ('s \<Rightarrow> 's) \<Rightarrow> int \<Rightarrow> 's \<Rightarrow> (error + real) \<times> 's" where
  "time_call perf_counter fn num_iters s =
     (let s1 = fn s;
          tic = perf_counter s1;
          s2 = repeat_call fn (nat num_iters) s1;
          toc = perf_counter s2
      in if num_iters = 0 then (Inl ZeroDivisionError, s2)
         else (Inr ((toc - tic) / real_of_int num_iters), s2))"

definition default_num_iters :: int where
  "default_num_iters = 5"

text \<open>A callable instrumented with a counter of its invocations.\<close>

definition counting :: "('s \<Rightarrow> 's) \<Rightarrow> nat \<times> 's \<Rightarrow> nat \<times> 's" where
  "counting fn cs = (Suc (fst cs), fn (snd cs))"

text \<open>
  The classes that \<open>kv_cache_type\<close> can name: the two the benchmark knows, and any other
  subclass of \<open>BaseKVCache\<close>.
\<close>

datatype kv_cache_type = KVCache | PagedKVCache | OtherKVCache string

text \<open>
  The arguments of \<open>generate_attention_data\<close> and \<open>generate_paged_attention_data\<close> as
  \<open>_benchmark\<close> passes them; \<open>mask_fn\<close> says whether \<open>causal_mask\<close> is passed.
\<close>

record generate_args =
  g_batch_size :: int
  g_query_len :: int
  g_kv_len :: int
  g_num_heads :: int
  g_per_head_dim :: int
  g_num_kv_heads :: int
  g_mask_fn :: bool
  g_sliding_window_sz :: "int option"
  g_attention_bias_type :: "string option"
  g_query_offset :: int

text \<open>
  What the benchmark calls outside this file, in the order of the calls, and what it
  prints. Each call appends itself to \<open>calls\<close> and advances the clock by \<open>dur\<close>, its
  duration, which may depend on the calls before it.
\<close>

datatype call =
    GenerateAttentionData generate_args
  | GeneratePagedAttentionData generate_args int
  | InstantiateReferenceMHA int
  | FlashAttentionImplementation int "kv_cache_type option"
  | RefFwd
  | FlashFwd
  | RefBwd
  | FlashBwd

datatype out_line =
    Benchmarking string string
  | FwdTimes real real
  | BwdTimes real real

record world =
  clock :: real
  calls :: "call list"
  stdout :: "out_line list"

definition ext :: "(call \<Rightarrow> call list \<Rightarrow> real) \<Rightarrow> call \<Rightarrow> world \<Rightarrow> world" where
  "ext dur c w = w\<lparr>clock := clock w + dur c (calls w), calls := calls w @ [c]\<rparr>"

definition print :: "out_line \<Rightarrow> world \<Rightarrow> world" where
  "print line w = w\<lparr>stdout := stdout w @ [line]\<rparr>"

record benchmark_args =
  batch_size :: int
  seq_len :: int
  block_size :: int
  num_heads :: int
  per_head_dim :: int
  num_kv_heads :: "int option"
  kv_cache_type :: "kv_cache_type option"
  causal :: bool
  use_bias :: bool
  sliding_window_size :: "int option"
  page_size :: "int option"

text \<open>Python's \<open>x or y\<close> and \<open>not x\<close> on an \<open>Optional[int]\<close>.\<close>

definition or_else :: "int option \<Rightarrow> int \<Rightarrow> int" where
  "or_else x y = (case x of None \<Rightarrow> y | Some n \<Rightarrow> if n = 0 then y else n)"

definition falsy :: "int option \<Rightarrow> bool" where
  "falsy x = (case x of None \<Rightarrow> True | Some n \<Rightarrow> n = 0)"

text \<open>
  Lines 137 to 177 of \<open>_benchmark\<close>, after the attention data is there: the two
  implementations, the forward timings and their line, and under
  \<open>kv_cache_type is None\<close> the backward timings and their line.
\<close>

definition benchmark_timings ::
    "(call \<Rightarrow> call list \<Rightarrow> real) \<Rightarrow> benchmark_args \<Rightarrow> world \<Rightarrow> error option \<times> world"
where
  "benchmark_timings dur a w =
     (let w = ext dur (InstantiateReferenceMHA (block_size a)) w;
          w = ext dur (FlashAttentionImplementation (block_size a) (kv_cache_type a)) w
      in case time_call clock (ext dur RefFwd) default_num_iters w of
           (Inl e, w) \<Rightarrow> (Some e, w)
         | (Inr ref_fwd_time, w) \<Rightarrow>
         (case time_call clock (ext dur FlashFwd) default_num_iters w of
           (Inl e, w) \<Rightarrow> (Some e, w)
         | (Inr flash_fwd_time, w) \<Rightarrow>
         (let w = print (FwdTimes ref_fwd_time flash_fwd_time) w
          in if kv_cache_type a = None then
               (case time_call clock (ext dur RefBwd) default_num_iters w of
                  (Inl e, w) \<Rightarrow> (Some e, w)
                | (Inr ref_bwd_time, w) \<Rightarrow>
               (case time_call clock (ext dur FlashBwd) default_num_iters w of
                  (Inl e, w) \<Rightarrow> (Some e, w)
                | (Inr flash_bwd_time, w) \<Rightarrow>
                    (None, print (BwdTimes ref_bwd_time flash_bwd_time) w)))
             else (None, w))))"

text \<open>\<open>_benchmark\<close>: the two guards, then the data, then the timings.\<close>

definition benchmark ::
    "(call \<Rightarrow> call list \<Rightarrow> real) \<Rightarrow> benchmark_args \<Rightarrow> world \<Rightarrow> error option \<times> world"
where
  "benchmark dur a w =
     (if \<not> (kv_cache_type a = None \<or> kv_cache_type a \<in> {Some KVCache, Some PagedKVCache})
      then (Some NotImplementedError, w)
      else if kv_cache_type a = Some PagedKVCache then
        (case page_size a of
           None \<Rightarrow> (Some AssertionError, w)
         | Some ps \<Rightarrow>
             benchmark_timings dur a
               (ext dur
                 (GeneratePagedAttentionData
                   \<lparr>g_batch_size = batch_size a, g_query_len = 1, g_kv_len = seq_len a,
                    g_num_heads = num_heads a, g_per_head_dim = per_head_dim a,
                    g_num_kv_heads = or_else (num_kv_heads a) (num_heads a),
                    g_mask_fn = (causal a \<and> falsy (sliding_window_size a)),
                    g_sliding_window_sz = sliding_window_size a,
                    g_attention_bias_type = (if use_bias a then Some ''4d'' else None),
                    g_query_offset = seq_len a - 1\<rparr> ps) w))
      else
        (let is_decoding = (kv_cache_type a = Some KVCache)
         in benchmark_timings dur a
              (ext dur
                (GenerateAttentionData
                  \<lparr>g_batch_size = batch_size a,
                   g_query_len = (if is_decoding then 1 else seq_len a),
                   g_kv_len = seq_len a,
                   g_num_heads = num_heads a, g_per_head_dim = per_head_dim a,
                   g_num_kv_heads = or_else (num_kv_heads a) (num_heads a),
                   g_mask_fn = (causal a \<and> falsy (sliding_window_size a)),
                   g_sliding_window_sz = sliding_window_size a,
                   g_attention_bias_type = (if use_bias a then Some ''4d'' else None),
                   g_query_offset = (if is_decoding then seq_len a - 1 else 0)\<rparr>) w)))"

text \<open>
  \<open>_BENCHMARK_CONFIGS\<close>: the name, \<open>num_heads\<close>, \<open>num_kv_heads\<close> where given, and
  \<open>per_head_dim\<close>.
\<close>

definition BENCHMARK_CONFIGS :: "(string \<times> int \<times> int option \<times> int) list" where
  "BENCHMARK_CONFIGS =
     [(''1.2b'', 16, None, 128),
      (''12.6b'', 40, None, 128),
      (''29.6b'', 8, Some 1, 128),
      (''65.2b'', 72, None, 128),
      (''134b'', 88, None, 128),
      (''261.7b'', 110, None, 128)]"

text \<open>
  The script: the assertion on \<open>jax.default_backend()\<close>, then the loop over the
  configurations. \<open>device_kind\<close> is \<open>jax.devices()[0].device_kind\<close>.
\<close>

fun main_loop ::
    "(call \<Rightarrow> call list \<Rightarrow> real) \<Rightarrow> string \<Rightarrow> (string \<times> int \<times> int option \<times> int) list
      \<Rightarrow> world \<Rightarrow> error option \<times> world"
where
  "main_loop dur device_kind [] w = (None, w)"
| "main_loop dur device_kind ((name, heads, kv_heads, head_dim) # configs) w =
     (case benchmark dur
             \<lparr>batch_size = 2, seq_len = 1024 * 8, block_size = 4 * 128,
              num_heads = heads, per_head_dim = head_dim, num_kv_heads = kv_heads,
              kv_cache_type = Some KVCache, causal = True, use_bias = False,
              sliding_window_size = Some 4096, page_size = None\<rparr>
             (print (Benchmarking name device_kind) w) of
        (Some e, w') \<Rightarrow> (Some e, w')
      | (None, w') \<Rightarrow> main_loop dur device_kind configs w')"

definition main ::
    "(call \<Rightarrow> call list \<Rightarrow> real) \<Rightarrow> string \<Rightarrow> string \<Rightarrow> world \<Rightarrow> error option \<times> world"
where
  "main dur default_backend device_kind w =
     (if default_backend \<noteq> ''tpu'' then (Some AssertionError, w)
      else main_loop dur device_kind BENCHMARK_CONFIGS w)"

section \<open>Auxiliary definitions for the statements\<close>

text \<open>
  \<open>jax.tree.map\<close> seen on the flattened tree: \<open>f\<close> runs over the pairs of path and leaf
  in order, the state is threaded through and the first exception ends the run.
\<close>

fun run_leaves ::
    "(string \<Rightarrow> 'a \<Rightarrow> 's \<Rightarrow> error + 'b \<times> 's) \<Rightarrow> (string \<times> 'a) list \<Rightarrow> 's \<Rightarrow> error + 'b list \<times> 's"
where
  "run_leaves f [] s = Inr ([], s)"
| "run_leaves f ((p, v) # rest) s =
     (case f p v s of
        Inl e \<Rightarrow> Inl e
      | Inr (r, s') \<Rightarrow>
          (case run_leaves f rest s' of
             Inl e \<Rightarrow> Inl e
           | Inr (rs, s'') \<Rightarrow> Inr (r # rs, s'')))"

text \<open>The lines of the benchmark's output and the calls that are attention passes.\<close>

fun is_fwd_line :: "out_line \<Rightarrow> bool" where
  "is_fwd_line (FwdTimes t1 t2) = True"
| "is_fwd_line line = False"

fun is_bwd_line :: "out_line \<Rightarrow> bool" where
  "is_bwd_line (BwdTimes t1 t2) = True"
| "is_bwd_line line = False"

fun is_pass :: "call \<Rightarrow> bool" where
  "is_pass RefFwd = True"
| "is_pass FlashFwd = True"
| "is_pass RefBwd = True"
| "is_pass FlashBwd = True"
| "is_pass c = False"

section \<open>Example inputs\<close>

text \<open>
  A toy regex engine (\<open>.*\<close> matches every path, any other regex only itself, and \<open>(\<close>
  does not compile), and a \<open>with_sharding_constraint\<close> that records each constraint in
  the tensor.
\<close>

definition example_valid :: "string \<Rightarrow> bool" where
  "example_valid s = (s \<noteq> ''('')"

definition example_fullmatch :: "string \<Rightarrow> string \<Rightarrow> bool" where
  "example_fullmatch s path = (s = ''.*'' \<or> s = path)"

definition example_wsc :: "pspec option list tensor \<Rightarrow> pspec option \<Rightarrow> pspec option list tensor" where
  "example_wsc value ps = value\<lparr>content := content value @ [ps]\<rparr>"

definition example_tensor :: "nat list \<Rightarrow> pspec option list tensor" where
  "example_tensor sh = \<lparr>shape = sh, content = []\<rparr>"

definition example_mesh :: "nat \<Rightarrow> mesh" where
  "example_mesh n = \<lparr>mesh_empty = False, mesh_size = n, mesh_shape = [(''data'', n)]\<rparr>"

definition example_log :: log where
  "example_log = \<lparr>first_n_count = 0, log_lines = []\<rparr>"

text \<open>A benchmark call with the defaults of the script, a fresh world, and durations.\<close>

definition example_args :: benchmark_args where
  "example_args =
     \<lparr>batch_size = 2, seq_len = 8192, block_size = 512, num_heads = 16, per_head_dim = 128,
      num_kv_heads = None, kv_cache_type = None, causal = True, use_bias = False,
      sliding_window_size = Some 4096, page_size = None\<rparr>"

definition example_world :: world where
  "example_world = \<lparr>clock = 0, calls = [], stdout = []\<rparr>"

definition example_dur :: "call \<Rightarrow> call list \<Rightarrow> real" where
  "example_dur c cs = (if c = RefFwd \<or> c = RefBwd then 4 else 1)"

section \<open>The rules as the documentation reads them\<close>

text \<open>
  A rule \<open>(path_regex, rank)\<close> of the mapping given to \<open>partition_by_path_rank\<close> matches a
  leaf when \<open>path_regex\<close> is \<open>None\<close> or full-matches the path of the leaf, and \<open>rank\<close> is
  \<open>None\<close> or the number of dimensions of the leaf. \<open>pattern_of\<close> is the pattern that a
  path regex stands for. \<open>first_matching_rule\<close> is the first such rule in the order of
  the mapping.
\<close>

fun pattern_of :: "path_regex \<Rightarrow> pattern" where
  "pattern_of (Str s) = Pattern s"
| "pattern_of (Compiled p) = p"

definition rule_matches ::
    "(string \<Rightarrow> string \<Rightarrow> bool) \<Rightarrow> string \<Rightarrow> 'a tensor \<Rightarrow> path_and_rank \<Rightarrow> bool"
where
  "rule_matches fullmatch path value key =
     ((case fst key of None \<Rightarrow> True | Some r \<Rightarrow> re_fullmatch fullmatch (pattern_of r) path)
      \<and> (case snd key of None \<Rightarrow> True | Some k \<Rightarrow> k = int (ndim value)))"

definition first_matching_rule ::
    "(string \<Rightarrow> string \<Rightarrow> bool) \<Rightarrow> (path_and_rank \<times> rule_spec) list \<Rightarrow> string \<Rightarrow> 'a tensor
      \<Rightarrow> (path_and_rank \<times> rule_spec) option"
where
  "first_matching_rule fullmatch rules path value =
     find (\<lambda>rule. rule_matches fullmatch path value (fst rule)) rules"

text \<open>The same on the keys of \<open>compiled\<close>, and the key that a rule is stored under.\<close>

definition key_matches ::
    "(string \<Rightarrow> string \<Rightarrow> bool) \<Rightarrow> string \<Rightarrow> 'a tensor \<Rightarrow> compiled_key \<Rightarrow> bool"
where
  "key_matches fullmatch path value key =
     ((case fst key of None \<Rightarrow> True | Some p \<Rightarrow> re_fullmatch fullmatch p path)
      \<and> (case snd key of None \<Rightarrow> True | Some k \<Rightarrow> k = int (ndim value)))"

definition compiled_key_of :: "path_and_rank \<Rightarrow> compiled_key" where
  "compiled_key_of key = (map_option pattern_of (fst key), snd key)"

text \<open>What a rule does to a leaf: \<open>UNCONSTRAINED\<close> leaves it as it is.\<close>

fun apply_rule_spec :: "('a tensor \<Rightarrow> pspec option \<Rightarrow> 'a tensor) \<Rightarrow> rule_spec \<Rightarrow> 'a tensor \<Rightarrow> 'a tensor" where
  "apply_rule_spec wsc UNCONSTRAINED value = value"
| "apply_rule_spec wsc (Constrain ps) value = wsc value ps"

text \<open>Two rules, and a batch whose leaf \<open>weights\<close> neither of them matches.\<close>

definition example_rules :: "(path_and_rank \<times> rule_spec) list" where
  "example_rules =
     [((Some (Str ''labels''), None), UNCONSTRAINED),
      ((Some (Str ''.*''), Some 2), Constrain (Some (PartitionSpec [Axis ''data'', Axis ''seq''])))]"

definition example_batch :: "pspec option list tensor nested" where
  "example_batch =
     Dict [(''input_ids'', Leaf (example_tensor [8, 16])),
           (''labels'', Leaf (example_tensor [8, 16])),
           (''weights'', Leaf (example_tensor [8]))]"

text \<open>
  A mapping with the regex \<open>a\<close> once as a string and once as a compiled pattern, both for
  rank 1.
\<close>

definition example_colliding_rules :: "(path_and_rank \<times> rule_spec) list" where
  "example_colliding_rules =
     [((Some (Str ''a''), Some 1), Constrain (Some (PartitionSpec [Axis ''data'']))),
      ((Some (Compiled (Pattern ''a'')), Some 1), Constrain (Some (PartitionSpec [Axis ''model''])))]"

section \<open>\<open>dispatch_global_batch\<close> as the claims read it\<close>

text \<open>
  Constraining a batch, said without the code: every leaf becomes
  \<open>with_sharding_constraint(leaf, partition_spec)\<close>, and one warning is logged, in the
  order of the leaves, for each leaf whose first dimension is not a multiple of the
  number of batch partitions.
\<close>

definition constrain_leaves ::
    "('a tensor \<Rightarrow> pspec option \<Rightarrow> 'a tensor) \<Rightarrow> 'a Input \<Rightarrow> 'a tensor nested \<Rightarrow> 'a tensor nested"
where
  "constrain_leaves wsc self batch =
     map_nested (\<lambda>value. wsc value (Some (partition_spec self))) batch"

definition dim0 :: "'a tensor \<Rightarrow> nat" where
  "dim0 value = (case shape value of [] \<Rightarrow> 0 | d # ds \<Rightarrow> d)"

definition batch_warnings :: "nat \<Rightarrow> pspec \<Rightarrow> (string \<times> 'a tensor) list \<Rightarrow> log_line list" where
  "batch_warnings batch_partitions spec pairs =
     map (\<lambda>pv. Warning (fst pv) (dim0 (snd pv)) batch_partitions spec)
       (filter (\<lambda>pv. dim0 (snd pv) mod batch_partitions \<noteq> 0) pairs)"

definition log_batch_warnings :: "nat \<Rightarrow> 'a Input \<Rightarrow> 'a tensor nested \<Rightarrow> log \<Rightarrow> log" where
  "log_batch_warnings batch_partitions self batch lg =
     lg\<lparr>log_lines := log_lines lg
        @ batch_warnings batch_partitions (partition_spec self)
            (zip (leaves (tree_paths batch)) (leaves batch))\<rparr>"

text \<open>
  The end of \<open>dispatch_global_batch\<close>: the logical batch is constrained, then handed to
  the input partitioner when there is one.
\<close>

definition constrain_then_partition ::
    "('a tensor \<Rightarrow> pspec option \<Rightarrow> 'a tensor) \<Rightarrow> 'a Input \<Rightarrow> mesh
      \<Rightarrow> 'a tensor nested \<Rightarrow> log \<Rightarrow> error + 'a tensor nested \<times> log"
where
  "constrain_then_partition wsc self mesh global_logical_batch lg =
     (case constrain_batch wsc self mesh global_logical_batch lg of
        Inl e \<Rightarrow> Inl e
      | Inr (constrained, lg') \<Rightarrow>
          (case input_partitioner self of
             None \<Rightarrow> Inr (constrained, lg')
           | Some partitioner \<Rightarrow> partitioner mesh constrained lg'))"

text \<open>
  The order of steps that C2 states: first every leaf of the physical batch is
  constrained, whether or not there is an input dispatcher; then the batch is converted,
  by the dispatcher or else by \<open>dispatch_input_batch\<close>; then the logical batch is
  constrained and partitioned.
\<close>

definition dispatch_global_batch_claimed ::
    "('a tensor \<Rightarrow> pspec option \<Rightarrow> 'a tensor)
      \<Rightarrow> ('a tensor nested \<Rightarrow> axis_entry \<Rightarrow> 'a tensor nested)
      \<Rightarrow> 'a Input \<Rightarrow> mesh \<Rightarrow> 'a tensor nested \<Rightarrow> log \<Rightarrow> error + 'a tensor nested \<times> log"
where
  "dispatch_global_batch_claimed wsc dispatch_input_batch self mesh global_physical_batch lg =
     (case constrain_batch wsc self mesh global_physical_batch lg of
        Inl e \<Rightarrow> Inl e
      | Inr (constrained, lg') \<Rightarrow>
          (case input_dispatcher self of
             Some d \<Rightarrow>
               constrain_then_partition wsc self mesh (physical_to_logical_batch d constrained) lg'
           | None \<Rightarrow>
               (case getitem0 (partition_spec self) of
                  Inl e \<Rightarrow> Inl e
                | Inr batch_axis_names \<Rightarrow>
                    constrain_then_partition wsc self mesh
                      (dispatch_input_batch constrained batch_axis_names) lg')))"

text \<open>
  An \<open>Input\<close> over the batch axis \<open>data\<close> with neither dispatcher nor partitioner; a
  dispatcher that pads every leaf by one example and drops it again; a partitioner made
  by \<open>partition_by_path_rank\<close>; an \<open>Input\<close> with both; and a physical batch with one leaf
  of odd batch size.
\<close>

definition example_spec :: pspec where
  "example_spec = PartitionSpec [Axis ''data'']"

definition example_input :: "pspec option list Input" where
  "example_input =
     \<lparr>partition_spec = example_spec, input_dispatcher = None, input_partitioner = None\<rparr>"

definition drop_last_example :: "'a tensor nested \<Rightarrow> 'a tensor nested" where
  "drop_last_example batch =
     map_nested (\<lambda>t. t\<lparr>shape := (case shape t of [] \<Rightarrow> [] | d # ds \<Rightarrow> (d - 1) # ds)\<rparr>) batch"

definition example_padding_dispatcher :: "pspec option list tensor nested dispatcher" where
  "example_padding_dispatcher =
     \<lparr>logical_to_physical_batch =
        map_nested (\<lambda>t. t\<lparr>shape := (case shape t of [] \<Rightarrow> [] | d # ds \<Rightarrow> (d + 1) # ds)\<rparr>),
      physical_to_logical_batch = drop_last_example\<rparr>"

definition example_partitioner ::
    "mesh \<Rightarrow> pspec option list tensor nested \<Rightarrow> log \<Rightarrow> error + pspec option list tensor nested \<times> log" where
  "example_partitioner =
     partition_fn example_fullmatch example_wsc
       [((None, Some 1), Constrain (Some (PartitionSpec [Axes [''data'', ''model'']])))]"

definition example_input_full :: "pspec option list Input" where
  "example_input_full =
     \<lparr>partition_spec = example_spec, input_dispatcher = Some example_padding_dispatcher,
      input_partitioner = Some example_partitioner\<rparr>"


text \<open>A list as an iterator, and an \<open>as_numpy_array\<close> that marks what it converted.\<close>

definition list_next :: "'b list \<Rightarrow> ('b \<times> 'b list) option" where
  "list_next xs = (case xs of [] \<Rightarrow> None | x # rest \<Rightarrow> Some (x, rest))"

definition example_as_numpy_array ::
    "pspec option list tensor nested \<Rightarrow> pspec option list tensor nested" where
  "example_as_numpy_array batch = map_nested (\<lambda>t. t\<lparr>content := [None]\<rparr>) batch"

section \<open>Lemmas on pytrees and on the compiled rules\<close>

lemma length_leaves_tree_paths:
  fixes t :: "'a nested" and items :: "(string \<times> 'a nested) list"
  shows "length (leaves (tree_paths_at pre t)) = length (leaves t)"
    and "length (leaves_items (tree_paths_items pre items)) = length (leaves_items items)"
  by (induction t and items arbitrary: pre and pre rule: leaves_leaves_items.induct) simp_all

lemma run_leaves_append:
  "run_leaves f (xs @ ys) s =
     (case run_leaves f xs s of
        Inl e \<Rightarrow> Inl e
      | Inr (rs, s') \<Rightarrow>
          (case run_leaves f ys s' of
             Inl e \<Rightarrow> Inl e
           | Inr (rs', s'') \<Rightarrow> Inr (rs @ rs', s'')))"
  by (induction xs arbitrary: s) (auto split: sum.splits)

lemma tree_map_run_leaves:
  fixes t :: "'a nested" and items :: "(string \<times> 'a nested) list"
  shows "run_leaves f (zip (leaves (tree_paths_at pre t)) (leaves t)) s =
           (case tree_map f (tree_paths_at pre t) t s of
              Inl e \<Rightarrow> Inl e
            | Inr (t', s') \<Rightarrow> Inr (leaves t', s'))"
    and "run_leaves f (zip (leaves_items (tree_paths_items pre items)) (leaves_items items)) s =
           (case tree_map_items f (tree_paths_items pre items) items s of
              Inl e \<Rightarrow> Inl e
            | Inr (items', s') \<Rightarrow> Inr (leaves_items items', s'))"
proof (induction t and items arbitrary: pre s and pre s rule: leaves_leaves_items.induct)
  case (1 v)
  show ?case by (simp split: sum.splits)
next
  case (2 items)
  show ?case using 2 [of pre s] by (simp split: sum.splits)
next
  case 3
  show ?case by simp
next
  case (4 k t items)
  show ?case
    using 4(1) [of "join_path pre k" s] 4(2) [of pre]
    by (simp add: run_leaves_append length_leaves_tree_paths split: sum.splits)
qed

lemma tree_map_same_paths:
  fixes t :: "'a nested" and items :: "(string \<times> 'a nested) list"
  shows "tree_map f (tree_paths_at pre t) t s = Inr (t', s') \<Longrightarrow> tree_paths_at pre t' = tree_paths_at pre t"
    and "tree_map_items f (tree_paths_items pre items) items s = Inr (items', s')
          \<Longrightarrow> tree_paths_items pre items' = tree_paths_items pre items"
proof (induction t and items arbitrary: pre s t' s' and pre s items' s' rule: leaves_leaves_items.induct)
  case (1 v)
  then show ?case by (auto split: sum.splits)
next
  case (2 items)
  then show ?case by (auto split: sum.splits)
next
  case 3
  then show ?case by simp
next
  case (4 k t items)
  then show ?case by (auto split: sum.splits)
qed

lemma run_leaves_unmatched:
  assumes "\<And>p v s. (p, v) \<in> set pairs \<Longrightarrow> bad p v \<Longrightarrow> g p v s = Inl (ValueError p)"
    and "\<And>p v s. (p, v) \<in> set pairs \<Longrightarrow> \<not> bad p v \<Longrightarrow> \<exists>r. g p v s = Inr r"
    and "(p0, v0) \<in> set pairs" and "bad p0 v0"
  shows "\<exists>q v. (q, v) \<in> set pairs \<and> bad q v \<and> run_leaves g pairs s = Inl (ValueError q)"
  using assms
proof (induction pairs arbitrary: s)
  case Nil
  then show ?case by simp
next
  case (Cons pv pairs)
  obtain p v where pv: "pv = (p, v)" by (cases pv)
  show ?case
  proof (cases "bad p v")
    case True
    then have "g p v s = Inl (ValueError p)"
      using Cons.prems(1) [of p v s] pv by simp
    then show ?thesis
      using True pv by auto
  next
    case False
    then obtain r s' where r: "g p v s = Inr (r, s')"
      using Cons.prems(2) [of p v s] pv by auto
    have in_rest: "(p0, v0) \<in> set pairs"
      using Cons.prems(3,4) False pv by auto
    obtain q w where "(q, w) \<in> set pairs" "bad q w" "run_leaves g pairs s' = Inl (ValueError q)"
      using Cons.IH [of s'] Cons.prems(1,2,4) in_rest by (metis list.set_intros(2))
    then show ?thesis
      using r pv by auto
  qed
qed

lemma dict_setitem_keys:
  "map fst (dict_setitem k v items) =
     (if k \<in> set (map fst items) then map fst items else map fst items @ [k])"
  by (induction items) (force simp: image_iff)+

lemma set_dict_setitem: "fst ` set (dict_setitem k v items) = insert k (fst ` set items)"
proof -
  have "set (map fst (dict_setitem k v items)) = insert k (set (map fst items))"
    by (simp add: dict_setitem_keys insert_absorb)
  then show ?thesis by simp
qed

lemma re_compile_pattern_of: "re_compile valid r = Inr p \<Longrightarrow> p = pattern_of r"
  by (cases r) (auto split: if_splits)

lemma compile_rules_keys:
  "compile_rules valid rules acc = Inr compiled
    \<Longrightarrow> fst ` set compiled = fst ` set acc \<union> compiled_key_of ` fst ` set rules"
proof (induction rules arbitrary: acc)
  case Nil
  then show ?case by simp
next
  case (Cons rule rules)
  obtain regex rank spec where rule: "rule = ((regex, rank), spec)"
    by (cases rule) auto
  show ?case
  proof (cases regex)
    case None
    with Cons.prems rule have "compile_rules valid rules (dict_setitem (None, rank) spec acc) = Inr compiled"
      by simp
    from Cons.IH [OF this] show ?thesis
      by (auto simp: set_dict_setitem rule None compiled_key_of_def)
  next
    case (Some r)
    with Cons.prems rule obtain p where p: "re_compile valid r = Inr p"
        and rest: "compile_rules valid rules (dict_setitem (Some p, rank) spec acc) = Inr compiled"
      by (auto split: sum.splits)
    from Cons.IH [OF rest] show ?thesis
      using re_compile_pattern_of [OF p]
      by (auto simp: set_dict_setitem rule Some compiled_key_of_def)
  qed
qed

lemma key_matches_compiled_key_of:
  "key_matches fullmatch path value (compiled_key_of key) = rule_matches fullmatch path value key"
  by (cases key) (auto simp: key_matches_def rule_matches_def compiled_key_of_def split: option.splits)

lemma maybe_constrain_find:
  "maybe_constrain fullmatch wsc compiled input_batch path value lg =
     (case find (\<lambda>entry. key_matches fullmatch path value (fst entry)) compiled of
        None \<Rightarrow> Inl (ValueError path)
      | Some (key, UNCONSTRAINED) \<Rightarrow> Inr (value, lg)
      | Some (key, Constrain ps) \<Rightarrow>
          (case len input_batch of
             Inl e \<Rightarrow> Inl e
           | Inr n \<Rightarrow> Inr (wsc value ps, log_first_n n (Info path (Constrain ps)) lg)))"
proof (induction compiled)
  case Nil
  show ?case by simp
next
  case (Cons entry compiled)
  obtain path_regex rank spec where entry: "entry = ((path_regex, rank), spec)"
    by (cases entry) auto
  show ?case
    using Cons.IH
    by (cases spec) (auto simp: entry key_matches_def split: option.splits)
qed

section \<open>Properties of \<open>partition_by_path_rank\<close>\<close>

lemma partition_by_path_rank_Inr:
  assumes "partition_by_path_rank valid fullmatch wsc rules = Inr f"
  obtains compiled where "compile_rules valid rules [] = Inr compiled"
    and "f = partition_fn fullmatch wsc compiled"
  using assms by (auto simp: partition_by_path_rank_def split: sum.splits)

lemma maybe_constrain_unmatched:
  assumes "\<forall>key \<in> fst ` set compiled. \<not> key_matches fullmatch path value key"
  shows "maybe_constrain fullmatch wsc compiled input_batch path value lg = Inl (ValueError path)"
proof -
  have "find (\<lambda>entry. key_matches fullmatch path value (fst entry)) compiled = None"
    using assms by (auto simp: find_None_iff)
  then show ?thesis
    by (simp add: maybe_constrain_find)
qed

lemma maybe_constrain_matched:
  assumes "\<not> (\<forall>key \<in> fst ` set compiled. \<not> key_matches fullmatch path value key)"
    and "len input_batch = Inr n"
  shows "\<exists>r. maybe_constrain fullmatch wsc compiled input_batch path value lg = Inr r"
proof -
  from assms(1) obtain entry where "entry \<in> set compiled"
      and "key_matches fullmatch path value (fst entry)"
    by blast
  then have "find (\<lambda>entry. key_matches fullmatch path value (fst entry)) compiled \<noteq> None"
    unfolding find_None_iff by blast
  then obtain key spec where
    "find (\<lambda>entry. key_matches fullmatch path value (fst entry)) compiled = Some (key, spec)"
    by (cases "find (\<lambda>entry. key_matches fullmatch path value (fst entry)) compiled") auto
  then show ?thesis
    using assms(2) by (cases spec) (simp_all add: maybe_constrain_find)
qed

text \<open>
  C4. Within a mesh that is not empty and has more than one device, if some leaf of the
  batch is matched by none of the rules given to \<open>partition_by_path_rank\<close>, the
  returned function returns no batch: it raises the \<open>ValueError\<close> that names the path
  of such a leaf.
\<close>

theorem partition_fn_unmatched_raises:
  assumes "partition_by_path_rank valid fullmatch wsc rules = Inr f"
    and "\<not> mesh_empty mesh" and "1 < mesh_size mesh"
    and "(path, value) \<in> set (zip (leaves (tree_paths input_batch)) (leaves input_batch))"
    and "\<forall>rule \<in> set rules. \<not> rule_matches fullmatch path value (fst rule)"
  shows "\<exists>q v. (q, v) \<in> set (zip (leaves (tree_paths input_batch)) (leaves input_batch))
           \<and> (\<forall>rule \<in> set rules. \<not> rule_matches fullmatch q v (fst rule))
           \<and> f mesh input_batch lg = Inl (ValueError q)"
proof -
  obtain compiled where compiled: "compile_rules valid rules [] = Inr compiled"
      and f: "f = partition_fn fullmatch wsc compiled"
    using assms(1) by (rule partition_by_path_rank_Inr)
  define bad where "bad p v = (\<forall>rule \<in> set rules. \<not> rule_matches fullmatch p v (fst rule))"
    for p and v :: "'a tensor"
  define g where "g = maybe_constrain fullmatch wsc compiled input_batch"
  define pairs where "pairs = zip (leaves (tree_paths input_batch)) (leaves input_batch)"
  have keys: "fst ` set compiled = compiled_key_of ` fst ` set rules"
    using compile_rules_keys [OF compiled] by simp
  have bad_keys: "bad p v = (\<forall>key \<in> fst ` set compiled. \<not> key_matches fullmatch p v key)" for p v
    by (auto simp: keys bad_def key_matches_compiled_key_of)
  have g_bad: "g p v s = Inl (ValueError p)" if "bad p v" for p v s
    using that maybe_constrain_unmatched [of compiled fullmatch p v] by (simp add: g_def bad_keys)
  have run: "f mesh input_batch lg = tree_map g (tree_paths input_batch) input_batch lg"
    using assms(2,3) by (simp add: f partition_fn_def g_def)
  have "\<exists>q v. (q, v) \<in> set pairs \<and> bad q v \<and> run_leaves g pairs lg = Inl (ValueError q)"
  proof (cases input_batch)
    case (Leaf v0)
    then have pairs: "pairs = [([], v0)]"
      by (simp add: pairs_def tree_paths_def)
    with assms(4,5) have "bad [] v0"
      by (simp add: pairs_def [symmetric] bad_def)
    then show ?thesis
      using g_bad [of "[]" v0 lg] by (simp add: pairs)
  next
    case (Dict items)
    then have "len input_batch = Inr (length items)"
      by simp
    then have g_good: "\<exists>r. g p v s = Inr r" if "\<not> bad p v" for p v s
      using that maybe_constrain_matched [of compiled fullmatch p v input_batch]
      by (simp add: g_def bad_keys)
    show ?thesis
    proof (rule run_leaves_unmatched)
      show "(path, value) \<in> set pairs"
        using assms(4) by (simp add: pairs_def)
      show "bad path value"
        using assms(5) by (simp add: bad_def)
    qed (use g_bad g_good in auto)
  qed
  then obtain q v where q: "(q, v) \<in> set pairs" "bad q v" "run_leaves g pairs lg = Inl (ValueError q)"
    by blast
  have "tree_map g (tree_paths input_batch) input_batch lg = Inl (ValueError q)"
    using q(3) tree_map_run_leaves(1) [of g "[]" input_batch lg]
    by (auto simp: pairs_def tree_paths_def split: sum.splits)
  with q(1,2) run show ?thesis
    by (auto simp: pairs_def bad_def)
qed

theorem partition_fn_unmatched_raises_witness:
  "partition_by_path_rank example_valid example_fullmatch example_wsc example_rules
     = Inr (partition_fn example_fullmatch example_wsc
              [((Some (Pattern ''labels''), None), UNCONSTRAINED),
               ((Some (Pattern ''.*''), Some 2),
                Constrain (Some (PartitionSpec [Axis ''data'', Axis ''seq''])))])
   \<and> \<not> mesh_empty (example_mesh 2) \<and> 1 < mesh_size (example_mesh 2)
   \<and> (''weights'', example_tensor [8])
        \<in> set (zip (leaves (tree_paths example_batch)) (leaves example_batch))
   \<and> \<not> rule_matches example_fullmatch ''weights'' (example_tensor [8]) (Some (Str ''labels''), None)
   \<and> \<not> rule_matches example_fullmatch ''weights'' (example_tensor [8]) (Some (Str ''.*''), Some 2)
   \<and> partition_fn example_fullmatch example_wsc
              [((Some (Pattern ''labels''), None), UNCONSTRAINED),
               ((Some (Pattern ''.*''), Some 2),
                Constrain (Some (PartitionSpec [Axis ''data'', Axis ''seq''])))]
        (example_mesh 2) example_batch example_log = Inl (ValueError ''weights'')"
proof -
  let ?f = "partition_fn example_fullmatch example_wsc
              [((Some (Pattern ''labels''), None), UNCONSTRAINED),
               ((Some (Pattern ''.*''), Some 2),
                Constrain (Some (PartitionSpec [Axis ''data'', Axis ''seq''])))]"
  have c: "partition_by_path_rank example_valid example_fullmatch example_wsc example_rules = Inr ?f"
    by (simp add: partition_by_path_rank_def example_rules_def example_valid_def)
  have m: "\<not> mesh_empty (example_mesh 2)" "1 < mesh_size (example_mesh 2)"
    by (simp_all add: example_mesh_def)
  have l: "(''weights'', example_tensor [8])
        \<in> set (zip (leaves (tree_paths example_batch)) (leaves example_batch))"
    by (simp add: example_batch_def tree_paths_def join_path_def)
  have r: "\<not> rule_matches example_fullmatch ''weights'' (example_tensor [8]) (Some (Str ''labels''), None)"
    "\<not> rule_matches example_fullmatch ''weights'' (example_tensor [8]) (Some (Str ''.*''), Some 2)"
    by (simp_all add: rule_matches_def example_fullmatch_def example_tensor_def ndim_def)
  then have u: "\<forall>rule \<in> set example_rules.
      \<not> rule_matches example_fullmatch ''weights'' (example_tensor [8]) (fst rule)"
    by (simp add: example_rules_def)
  have e: "?f (example_mesh 2) example_batch example_log = Inl (ValueError ''weights'')"
    by (simp add: partition_fn_def example_mesh_def example_batch_def tree_paths_def join_path_def
        example_fullmatch_def example_tensor_def ndim_def example_wsc_def log_first_n_def
        example_log_def)
  show ?thesis
    using c m l r e partition_fn_unmatched_raises [OF c m l u, of example_log] by simp
qed

text \<open>
  C5. When the mesh is empty or has size 1, the function that \<open>partition_by_path_rank\<close>
  returns is the identity: the batch comes back as it is and the log is untouched, so
  no constraint was applied and no rule was tried; in particular it does not raise
  where no rule would match.
\<close>

theorem partition_fn_noop_without_mesh:
  assumes "partition_by_path_rank valid fullmatch wsc rules = Inr f"
    and "mesh_empty mesh \<or> mesh_size mesh = 1"
  shows "f mesh input_batch lg = Inr (input_batch, lg)"
proof -
  obtain compiled where "f = partition_fn fullmatch wsc compiled"
    using assms(1) by (rule partition_by_path_rank_Inr)
  with assms(2) show ?thesis
    by (simp add: partition_fn_def)
qed

theorem partition_fn_noop_without_mesh_witness:
  "partition_by_path_rank example_valid example_fullmatch example_wsc []
     = Inr (partition_fn example_fullmatch example_wsc [])
   \<and> (mesh_empty (example_mesh 1) \<or> mesh_size (example_mesh 1) = 1)
   \<and> partition_fn example_fullmatch example_wsc [] (example_mesh 1) example_batch example_log
       = Inr (example_batch, example_log)
   \<and> partition_fn example_fullmatch example_wsc [] (example_mesh 2) example_batch example_log
       = Inl (ValueError ''input_ids'')"
proof -
  have c: "partition_by_path_rank example_valid example_fullmatch example_wsc []
            = Inr (partition_fn example_fullmatch example_wsc [])"
    by (simp add: partition_by_path_rank_def)
  have m: "mesh_empty (example_mesh 1) \<or> mesh_size (example_mesh 1) = 1"
    by (simp add: example_mesh_def)
  have r: "partition_fn example_fullmatch example_wsc [] (example_mesh 2) example_batch example_log
       = Inl (ValueError ''input_ids'')"
    by (simp add: partition_fn_def example_mesh_def example_batch_def tree_paths_def join_path_def)
  show ?thesis
    using c m r partition_fn_noop_without_mesh [OF c m, of example_batch example_log] by simp
qed

lemma dict_setitem_new: "k \<notin> fst ` set items \<Longrightarrow> dict_setitem k v items = items @ [(k, v)]"
  by (induction items) auto

lemma compile_rules_distinct:
  "compile_rules valid rules acc = Inr compiled
    \<Longrightarrow> distinct (map fst acc @ map (\<lambda>rule. compiled_key_of (fst rule)) rules)
    \<Longrightarrow> compiled = acc @ map (\<lambda>rule. (compiled_key_of (fst rule), snd rule)) rules"
proof (induction rules arbitrary: acc)
  case Nil
  then show ?case by simp
next
  case (Cons rule rules)
  obtain regex rank spec where rule: "rule = ((regex, rank), spec)"
    by (cases rule) auto
  have new: "compiled_key_of (regex, rank) \<notin> fst ` set acc"
    using Cons.prems(2) by (auto simp: rule)
  have rest: "compile_rules valid rules (dict_setitem (compiled_key_of (regex, rank)) spec acc) = Inr compiled"
  proof (cases regex)
    case None
    with Cons.prems(1) show ?thesis
      by (simp add: rule compiled_key_of_def)
  next
    case (Some r)
    with Cons.prems(1) obtain p where p: "re_compile valid r = Inr p"
        and "compile_rules valid rules (dict_setitem (Some p, rank) spec acc) = Inr compiled"
      by (auto simp: rule split: sum.splits)
    then show ?thesis
      using re_compile_pattern_of [OF p] by (simp add: Some compiled_key_of_def)
  qed
  have "distinct (map fst (acc @ [(compiled_key_of (regex, rank), spec)])
                  @ map (\<lambda>rule. compiled_key_of (fst rule)) rules)"
    using Cons.prems(2) by (simp add: rule)
  from Cons.IH [OF rest [unfolded dict_setitem_new [OF new]] this]
  show ?case
    by (simp add: rule)
qed

lemma find_compiled_rules:
  "find (\<lambda>entry. key_matches fullmatch path value (fst entry))
        (map (\<lambda>rule. (compiled_key_of (fst rule), snd rule)) rules)
   = map_option (\<lambda>rule. (compiled_key_of (fst rule), snd rule))
       (first_matching_rule fullmatch rules path value)"
  by (induction rules) (simp_all add: first_matching_rule_def key_matches_compiled_key_of)

lemma run_leaves_total:
  assumes "\<And>p v s. (p, v) \<in> set pairs \<Longrightarrow> \<exists>s'. g p v s = Inr (h p v, s')"
  shows "\<exists>s'. run_leaves g pairs s = Inr (map (\<lambda>(p, v). h p v) pairs, s')"
  using assms
proof (induction pairs arbitrary: s)
  case Nil
  show ?case by simp
next
  case (Cons pv pairs)
  obtain p v where pv: "pv = (p, v)" by (cases pv)
  obtain s1 where 1: "g p v s = Inr (h p v, s1)"
    using Cons.prems [of p v s] pv by auto
  obtain s2 where 2: "run_leaves g pairs s1 = Inr (map (\<lambda>(p, v). h p v) pairs, s2)"
    using Cons.IH [of s1] Cons.prems by (metis list.set_intros(2))
  show ?case
    using 1 2 by (simp add: pv)
qed

text \<open>
  What the returned function does on a batch it accepts, when no two rules of the mapping
  are stored under one key of \<open>compiled\<close> and the batch is not a tensor of rank 0: each
  leaf is constrained by the first rule of the mapping that matches it.
\<close>

lemma partition_fn_first_match:
  assumes "partition_by_path_rank valid fullmatch wsc rules = Inr f"
    and "\<not> mesh_empty mesh" and "mesh_size mesh \<noteq> 1"
    and "distinct (map (\<lambda>rule. compiled_key_of (fst rule)) rules)"
    and "len input_batch = Inr n"
    and "\<And>p v. (p, v) \<in> set (zip (leaves (tree_paths input_batch)) (leaves input_batch))
           \<Longrightarrow> first_matching_rule fullmatch rules p v \<noteq> None"
  shows "\<exists>out lg'. f mesh input_batch lg = Inr (out, lg')
           \<and> tree_paths out = tree_paths input_batch
           \<and> leaves out =
               map (\<lambda>(p, v). case first_matching_rule fullmatch rules p v of
                                None \<Rightarrow> v
                              | Some rule \<Rightarrow> apply_rule_spec wsc (snd rule) v)
                   (zip (leaves (tree_paths input_batch)) (leaves input_batch))"
proof -
  obtain compiled where compiled: "compile_rules valid rules [] = Inr compiled"
      and f: "f = partition_fn fullmatch wsc compiled"
    using assms(1) by (rule partition_by_path_rank_Inr)
  have c: "compiled = map (\<lambda>rule. (compiled_key_of (fst rule), snd rule)) rules"
    using compile_rules_distinct [OF compiled] assms(4) by simp
  define g where "g = maybe_constrain fullmatch wsc compiled input_batch"
  define h where "h p v = (case first_matching_rule fullmatch rules p v of
                                None \<Rightarrow> v
                              | Some rule \<Rightarrow> apply_rule_spec wsc (snd rule) v)"
    for p and v :: "'a tensor"
  define pairs where "pairs = zip (leaves (tree_paths input_batch)) (leaves input_batch)"
  have step: "\<exists>s'. g p v s = Inr (h p v, s')" if "(p, v) \<in> set pairs" for p v s
  proof -
    have "first_matching_rule fullmatch rules p v \<noteq> None"
      using assms(6) [of p v] that by (simp add: pairs_def)
    then obtain key spec where r: "first_matching_rule fullmatch rules p v = Some (key, spec)"
      by (cases "first_matching_rule fullmatch rules p v") auto
    show ?thesis
      using assms(5)
      by (cases spec) (simp_all add: g_def h_def maybe_constrain_find c find_compiled_rules r)
  qed
  obtain s' where run: "run_leaves g pairs lg = Inr (map (\<lambda>(p, v). h p v) pairs, s')"
    using run_leaves_total [of pairs g h lg] step by blast
  then obtain out where out: "tree_map g (tree_paths input_batch) input_batch lg = Inr (out, s')"
      and l: "leaves out = map (\<lambda>(p, v). h p v) pairs"
    using tree_map_run_leaves(1) [of g "[]" input_batch lg]
    by (auto simp: pairs_def tree_paths_def split: sum.splits)
  have "tree_paths out = tree_paths input_batch"
    using tree_map_same_paths(1) [of g "[]" input_batch lg out s'] out
    by (simp add: tree_paths_def)
  moreover have "f mesh input_batch lg = Inr (out, s')"
    using assms(2,3) out by (simp add: f partition_fn_def g_def)
  ultimately show ?thesis
    using l by (auto simp: pairs_def h_def)
qed

text \<open>
  C1 says that each leaf is constrained by the first rule of the given mapping that
  matches it. The code stores the rules under their compiled keys, so a later rule
  whose regex compiles to the pattern of an earlier rule of the same rank takes that
  rule's place: for the mapping \<open>{("a", 1): data, (re.compile("a"), 1): model}\<close> the leaf
  \<open>a\<close> of rank 1 is constrained by \<open>model\<close>, while the first matching rule of the
  mapping says \<open>data\<close>. And on a batch that is a single tensor of rank 0, a matching
  rule that constrains ends in the \<open>TypeError\<close> of \<open>len(input_batch)\<close>.
\<close>

theorem partition_fn_colliding_rules:
  "partition_by_path_rank example_valid example_fullmatch example_wsc example_colliding_rules
     = Inr (partition_fn example_fullmatch example_wsc
              [((Some (Pattern ''a''), Some 1), Constrain (Some (PartitionSpec [Axis ''model''])))])
   \<and> first_matching_rule example_fullmatch example_colliding_rules ''a'' (example_tensor [4])
     = Some ((Some (Str ''a''), Some 1), Constrain (Some (PartitionSpec [Axis ''data''])))
   \<and> partition_fn example_fullmatch example_wsc
        [((Some (Pattern ''a''), Some 1), Constrain (Some (PartitionSpec [Axis ''model''])))]
        (example_mesh 2) (Dict [(''a'', Leaf (example_tensor [4]))]) example_log
     = Inr (Dict [(''a'', Leaf \<lparr>shape = [4], content = [Some (PartitionSpec [Axis ''model''])]\<rparr>)],
            \<lparr>first_n_count = 1,
             log_lines = [Info ''a'' (Constrain (Some (PartitionSpec [Axis ''model''])))]\<rparr>)
   \<and> partition_fn example_fullmatch example_wsc [((None, None), Constrain (Some (PartitionSpec [])))]
        (example_mesh 2) (Leaf (example_tensor [])) example_log
     = Inl TypeError"
  by (simp add: partition_by_path_rank_def example_colliding_rules_def example_valid_def
      first_matching_rule_def rule_matches_def example_fullmatch_def example_tensor_def ndim_def
      partition_fn_def example_mesh_def tree_paths_def join_path_def example_wsc_def
      log_first_n_def example_log_def)

section \<open>Properties of \<open>Input.dispatch_global_batch\<close>\<close>

lemma tree_map_total:
  fixes t :: "'a nested" and items :: "(string \<times> 'a nested) list"
  shows "(\<forall>v \<in> set (leaves t). \<forall>p s. g p v s = Inr (h v, k p v s))
      \<longrightarrow> tree_map g (tree_paths_at pre t) t s =
            Inr (map_nested h t,
                 foldl (\<lambda>s pv. k (fst pv) (snd pv) s) s (zip (leaves (tree_paths_at pre t)) (leaves t)))"
    and "(\<forall>v \<in> set (leaves_items items). \<forall>p s. g p v s = Inr (h v, k p v s))
      \<longrightarrow> tree_map_items g (tree_paths_items pre items) items s =
            Inr (map (map_prod id (map_nested h)) items,
                 foldl (\<lambda>s pv. k (fst pv) (snd pv) s) s
                   (zip (leaves_items (tree_paths_items pre items)) (leaves_items items)))"
proof (induction t and items arbitrary: pre s and pre s rule: leaves_leaves_items.induct)
  case (1 v)
  show ?case by simp
next
  case (2 items)
  show ?case using 2 [of pre s] by (simp add: id_def)
next
  case 3
  show ?case by simp
next
  case (4 k' t items)
  show ?case
    using 4(1) [of "join_path pre k'" s] 4(2) [of pre]
    by (simp add: length_leaves_tree_paths id_def)
qed


lemma foldl_warnings:
  "foldl (\<lambda>lg pv. if dim0 (snd pv) mod bp \<noteq> 0
                    then log_warning (Warning (fst pv) (dim0 (snd pv)) bp spec) lg else lg) lg pairs
   = lg\<lparr>log_lines := log_lines lg @ batch_warnings bp spec pairs\<rparr>"
  by (induction pairs arbitrary: lg) (simp_all add: batch_warnings_def log_warning_def)

lemma constrain_batch_axis_ranked:
  assumes "getitem0 (partition_spec self) = Inr entry"
    and "prod_mesh_shape (mesh_shape mesh) (tree_leaves entry) = Inr bp"
    and "0 < bp" and "shape value \<noteq> []"
  shows "constrain_batch_axis wsc self mesh path value lg =
           Inr (wsc value (Some (partition_spec self)),
                if dim0 value mod bp \<noteq> 0
                then log_warning (Warning path (dim0 value) bp (partition_spec self)) lg else lg)"
  using assms by (cases "shape value") (simp_all add: constrain_batch_axis_def dim0_def)

lemma constrain_batch_ranked:
  assumes "getitem0 (partition_spec self) = Inr entry"
    and "prod_mesh_shape (mesh_shape mesh) (tree_leaves entry) = Inr bp"
    and "0 < bp" and "\<forall>v \<in> set (leaves batch). shape v \<noteq> []"
  shows "constrain_batch wsc self mesh batch lg =
           Inr (constrain_leaves wsc self batch, log_batch_warnings bp self batch lg)"
proof -
  have "\<forall>v \<in> set (leaves batch). \<forall>p s.
          constrain_batch_axis wsc self mesh p v s =
            Inr (wsc v (Some (partition_spec self)),
                 if dim0 v mod bp \<noteq> 0
                 then log_warning (Warning p (dim0 v) bp (partition_spec self)) s else s)"
    using constrain_batch_axis_ranked [OF assms(1,2,3)] assms(4) by blast
  from tree_map_total(1) [THEN mp, OF this, of "[]" lg]
  show ?thesis
    by (simp only: constrain_batch_def tree_paths_def foldl_warnings constrain_leaves_def
        log_batch_warnings_def)
qed

text \<open>
  C2, as stated, fails without an input dispatcher: the code hands the physical batch to
  \<open>dispatch_input_batch\<close> as it came, and constrains only the logical batch. With a
  \<open>dispatch_input_batch\<close> that returns the batch it is given, a leaf of three examples
  on two batch partitions is warned about once where the stated order of steps warns
  twice, and, with a \<open>with_sharding_constraint\<close> that records every constraint, carries
  one constraint where the stated order gives two.
\<close>

theorem dispatch_global_batch_claimed_counterexample:
  "dispatch_global_batch example_wsc (\<lambda>batch batch_axis_names. batch) example_input (example_mesh 2)
      (Dict [(''x'', Leaf (example_tensor [3]))]) example_log
     = Inr (Dict [(''x'', Leaf \<lparr>shape = [3], content = [Some example_spec]\<rparr>)],
            \<lparr>first_n_count = 0, log_lines = [Warning ''x'' 3 2 example_spec]\<rparr>)
   \<and> dispatch_global_batch_claimed example_wsc (\<lambda>batch batch_axis_names. batch) example_input
      (example_mesh 2) (Dict [(''x'', Leaf (example_tensor [3]))]) example_log
     = Inr (Dict [(''x'', Leaf \<lparr>shape = [3], content = [Some example_spec, Some example_spec]\<rparr>)],
            \<lparr>first_n_count = 0,
             log_lines = [Warning ''x'' 3 2 example_spec, Warning ''x'' 3 2 example_spec]\<rparr>)
   \<and> dispatch_global_batch example_wsc (\<lambda>batch batch_axis_names. batch) example_input (example_mesh 2)
      (Dict [(''x'', Leaf (example_tensor [3]))]) example_log
     \<noteq> dispatch_global_batch_claimed example_wsc (\<lambda>batch batch_axis_names. batch) example_input
      (example_mesh 2) (Dict [(''x'', Leaf (example_tensor [3]))]) example_log"
  by (simp add: dispatch_global_batch_def dispatch_global_batch_claimed_def
      constrain_then_partition_def constrain_batch_def constrain_batch_axis_def
      example_input_def example_spec_def example_mesh_def example_tensor_def example_wsc_def
      example_log_def log_warning_def tree_paths_def join_path_def)

text \<open>
  C2, amended. Take a partition spec with a first entry whose axes are mesh axes with a
  positive product of sizes, and let the leaves that are constrained have a first
  dimension. With an input dispatcher, \<open>dispatch_global_batch\<close> first replaces every leaf
  of the physical batch by \<open>with_sharding_constraint(leaf, partition_spec)\<close>, logging
  the warnings of that batch, and converts the result with \<open>physical_to_logical_batch\<close>;
  without one it passes the physical batch, unconstrained and unlogged, to
  \<open>dispatch_input_batch\<close> with the batch axis names. Then it replaces every leaf of the
  logical batch by \<open>with_sharding_constraint(leaf, partition_spec)\<close>, logging the
  warnings of the logical batch, and applies the input partitioner last: when one is
  configured, what \<open>dispatch_global_batch\<close> returns (or raises) is what the partitioner
  returns (or raises) on the constrained logical batch.
\<close>

theorem dispatch_global_batch_order:
  assumes "getitem0 (partition_spec self) = Inr batch_axis_names"
    and "prod_mesh_shape (mesh_shape mesh) (tree_leaves batch_axis_names) = Inr batch_partitions"
    and "0 < batch_partitions"
    and "input_dispatcher self \<noteq> None \<longrightarrow> (\<forall>v \<in> set (leaves global_physical_batch). shape v \<noteq> [])"
    and "global_logical_batch =
           (case input_dispatcher self of
              Some d \<Rightarrow> physical_to_logical_batch d (constrain_leaves wsc self global_physical_batch)
            | None \<Rightarrow> dispatch_input_batch global_physical_batch batch_axis_names)"
    and "lg1 =
           (case input_dispatcher self of
              Some d \<Rightarrow> log_batch_warnings batch_partitions self global_physical_batch lg
            | None \<Rightarrow> lg)"
    and "\<forall>v \<in> set (leaves global_logical_batch). shape v \<noteq> []"
  shows "dispatch_global_batch wsc dispatch_input_batch self mesh global_physical_batch lg =
           (case input_partitioner self of
              None \<Rightarrow>
                Inr (constrain_leaves wsc self global_logical_batch,
                     log_batch_warnings batch_partitions self global_logical_batch lg1)
            | Some partitioner \<Rightarrow>
                partitioner mesh (constrain_leaves wsc self global_logical_batch)
                  (log_batch_warnings batch_partitions self global_logical_batch lg1))"
proof -
  have logical: "constrain_batch wsc self mesh global_logical_batch lg1 =
      Inr (constrain_leaves wsc self global_logical_batch,
           log_batch_warnings batch_partitions self global_logical_batch lg1)"
    using assms(1,2,3,7) by (rule constrain_batch_ranked)
  show ?thesis
  proof (cases "input_dispatcher self")
    case None
    then show ?thesis
      using assms(1,5,6) logical
      by (simp add: dispatch_global_batch_def split: option.splits)
  next
    case (Some d)
    then have "\<forall>v \<in> set (leaves global_physical_batch). shape v \<noteq> []"
      using assms(4) by simp
    then have "constrain_batch wsc self mesh global_physical_batch lg =
      Inr (constrain_leaves wsc self global_physical_batch,
           log_batch_warnings batch_partitions self global_physical_batch lg)"
      using assms(1,2,3) constrain_batch_ranked by blast
    then show ?thesis
      using Some assms(5,6) logical
      by (simp add: dispatch_global_batch_def split: option.splits)
  qed
qed

theorem dispatch_global_batch_order_witness:
  "getitem0 (partition_spec example_input_full) = Inr (Axis ''data'')
   \<and> prod_mesh_shape (mesh_shape (example_mesh 2)) (tree_leaves (Axis ''data'')) = Inr 2
   \<and> (0::nat) < 2
   \<and> shape (example_tensor [4]) \<noteq> []
   \<and> physical_to_logical_batch example_padding_dispatcher
        (constrain_leaves example_wsc example_input_full (Dict [(''x'', Leaf (example_tensor [4]))]))
      = Dict [(''x'', Leaf \<lparr>shape = [3], content = [Some example_spec]\<rparr>)]
   \<and> log_batch_warnings 2 example_input_full (Dict [(''x'', Leaf (example_tensor [4]))]) example_log
      = example_log
   \<and> dispatch_global_batch example_wsc (\<lambda>batch batch_axis_names. batch) example_input_full
        (example_mesh 2) (Dict [(''x'', Leaf (example_tensor [4]))]) example_log
      = Inr (Dict [(''x'', Leaf \<lparr>shape = [3],
                      content = [Some example_spec, Some example_spec,
                                 Some (PartitionSpec [Axes [''data'', ''model'']])]\<rparr>)],
             \<lparr>first_n_count = 1,
              log_lines = [Warning ''x'' 3 2 example_spec,
                           Info ''x'' (Constrain (Some (PartitionSpec [Axes [''data'', ''model'']])))]\<rparr>)"
proof -
  let ?batch = "Dict [(''x'', Leaf (example_tensor [4]))]"
  let ?logical = "Dict [(''x'', Leaf \<lparr>shape = [3], content = [Some example_spec]\<rparr>)]"
  have 1: "getitem0 (partition_spec example_input_full) = Inr (Axis ''data'')"
    by (simp add: example_input_full_def example_spec_def)
  have 2: "prod_mesh_shape (mesh_shape (example_mesh 2)) (tree_leaves (Axis ''data'')) = Inr 2"
    by (simp add: example_mesh_def)
  have 3: "(0::nat) < 2" by simp
  have s: "shape (example_tensor [4]) \<noteq> []"
    by (simp add: example_tensor_def)
  then have 4: "input_dispatcher example_input_full \<noteq> None
      \<longrightarrow> (\<forall>v \<in> set (leaves ?batch). shape v \<noteq> [])"
    by simp
  have l: "physical_to_logical_batch example_padding_dispatcher
        (constrain_leaves example_wsc example_input_full ?batch) = ?logical"
    by (simp add: example_padding_dispatcher_def drop_last_example_def constrain_leaves_def
        example_wsc_def example_input_full_def example_tensor_def)
  have 5: "?logical =
           (case input_dispatcher example_input_full of
              Some d \<Rightarrow> physical_to_logical_batch d (constrain_leaves example_wsc example_input_full ?batch)
            | None \<Rightarrow> (\<lambda>batch batch_axis_names. batch) ?batch (Axis ''data''))"
    using l by (simp add: example_input_full_def)
  have w: "log_batch_warnings 2 example_input_full ?batch example_log = example_log"
    by (simp add: log_batch_warnings_def batch_warnings_def tree_paths_def join_path_def
        dim0_def example_tensor_def example_log_def)
  have 6: "example_log =
           (case input_dispatcher example_input_full of
              Some d \<Rightarrow> log_batch_warnings 2 example_input_full ?batch example_log
            | None \<Rightarrow> example_log)"
    using w by (simp add: example_input_full_def)
  have 7: "\<forall>v \<in> set (leaves ?logical). shape v \<noteq> []"
    by simp
  have p: "input_partitioner example_input_full = Some example_partitioner"
    by (simp add: example_input_full_def)
  have c: "constrain_leaves example_wsc example_input_full ?logical
           = Dict [(''x'', Leaf \<lparr>shape = [3], content = [Some example_spec, Some example_spec]\<rparr>)]"
    by (simp add: constrain_leaves_def example_wsc_def example_input_full_def)
  have w2: "log_batch_warnings 2 example_input_full ?logical example_log
           = \<lparr>first_n_count = 0, log_lines = [Warning ''x'' 3 2 example_spec]\<rparr>"
    by (simp add: log_batch_warnings_def batch_warnings_def tree_paths_def join_path_def
        dim0_def example_log_def example_input_full_def)
  have e: "example_partitioner (example_mesh 2)
             (Dict [(''x'', Leaf \<lparr>shape = [3], content = [Some example_spec, Some example_spec]\<rparr>)])
             \<lparr>first_n_count = 0, log_lines = [Warning ''x'' 3 2 example_spec]\<rparr>
           = Inr (Dict [(''x'', Leaf \<lparr>shape = [3],
                      content = [Some example_spec, Some example_spec,
                                 Some (PartitionSpec [Axes [''data'', ''model'']])]\<rparr>)],
             \<lparr>first_n_count = 1,
              log_lines = [Warning ''x'' 3 2 example_spec,
                           Info ''x'' (Constrain (Some (PartitionSpec [Axes [''data'', ''model'']])))]\<rparr>)"
    by (simp add: example_partitioner_def partition_fn_def example_mesh_def tree_paths_def
        join_path_def ndim_def example_wsc_def log_first_n_def)
  have "dispatch_global_batch example_wsc (\<lambda>batch batch_axis_names. batch) example_input_full
        (example_mesh 2) ?batch example_log
      = example_partitioner (example_mesh 2)
             (Dict [(''x'', Leaf \<lparr>shape = [3], content = [Some example_spec, Some example_spec]\<rparr>)])
             \<lparr>first_n_count = 0, log_lines = [Warning ''x'' 3 2 example_spec]\<rparr>"
    using dispatch_global_batch_order
        [where dispatch_input_batch = "\<lambda>batch batch_axis_names. batch" and wsc = example_wsc
           and lg = example_log, OF 1 2 3 4 5 6 7]
    unfolding p c w2 by simp
  then show ?thesis
    using 1 2 3 s l w e by simp
qed



section \<open>Properties of \<open>Input.batches\<close>\<close>

text \<open>
  C6. Whatever the iterator, and however many batches are drawn, \<open>Input.batches\<close> yields
  one batch for each batch of the iterator, in the same order, and is exhausted exactly
  when the iterator is. Each batch it yields is \<open>as_numpy_array\<close> of the input batch,
  passed through \<open>logical_to_physical_batch\<close> of the input dispatcher if and only if one
  is configured.
\<close>

theorem batches_one_per_input:
  "take_iter (batches_next as_numpy_array self nxt) n it =
     map (\<lambda>input_batch.
            case input_dispatcher self of
              Some d \<Rightarrow> logical_to_physical_batch d (as_numpy_array input_batch)
            | None \<Rightarrow> as_numpy_array input_batch)
       (take_iter nxt n it)
   \<and> length (take_iter (batches_next as_numpy_array self nxt) n it) = length (take_iter nxt n it)
   \<and> (batches_next as_numpy_array self nxt it = None) = (nxt it = None)"
proof -
  have "take_iter (batches_next as_numpy_array self nxt) n it =
     map (\<lambda>input_batch.
            case input_dispatcher self of
              Some d \<Rightarrow> logical_to_physical_batch d (as_numpy_array input_batch)
            | None \<Rightarrow> as_numpy_array input_batch)
       (take_iter nxt n it)"
  proof (induction n arbitrary: it)
    case 0
    show ?case by simp
  next
    case (Suc n)
    show ?case
    proof (cases "nxt it")
      case None
      then show ?thesis by (simp add: batches_next_def)
    next
      case (Some r)
      obtain input_batch it' where r: "r = (input_batch, it')" by (cases r)
      show ?thesis
        using Suc.IH [of it'] Some
        by (simp add: r batches_next_def Let_def split: option.splits)
    qed
  qed
  moreover have "(batches_next as_numpy_array self nxt it = None) = (nxt it = None)"
    by (simp add: batches_next_def Let_def split: option.splits prod.splits)
  ultimately show ?thesis
    by simp
qed

theorem batches_one_per_input_witness:
  "take_iter (batches_next example_as_numpy_array
               (example_input\<lparr>input_dispatcher := Some example_padding_dispatcher\<rparr>) list_next) 5
     [Leaf (example_tensor [3]), Dict [(''x'', Leaf (example_tensor [7, 2]))]]
   = [Leaf \<lparr>shape = [4], content = [None]\<rparr>,
      Dict [(''x'', Leaf \<lparr>shape = [8, 2], content = [None]\<rparr>)]]
   \<and> take_iter (batches_next example_as_numpy_array example_input list_next) 5
     [Leaf (example_tensor [3]), Dict [(''x'', Leaf (example_tensor [7, 2]))]]
   = [Leaf \<lparr>shape = [3], content = [None]\<rparr>,
      Dict [(''x'', Leaf \<lparr>shape = [7, 2], content = [None]\<rparr>)]]"
proof -
  have t: "take_iter list_next 5 [Leaf (example_tensor [3]), Dict [(''x'', Leaf (example_tensor [7, 2]))]]
           = [Leaf (example_tensor [3]), Dict [(''x'', Leaf (example_tensor [7, 2]))]]"
    by (simp add: eval_nat_numeral list_next_def)
  have a: "take_iter (batches_next example_as_numpy_array
               (example_input\<lparr>input_dispatcher := Some example_padding_dispatcher\<rparr>) list_next) 5
             [Leaf (example_tensor [3]), Dict [(''x'', Leaf (example_tensor [7, 2]))]]
           = map (\<lambda>input_batch.
                case input_dispatcher (example_input\<lparr>input_dispatcher := Some example_padding_dispatcher\<rparr>) of
                  Some d \<Rightarrow> logical_to_physical_batch d (example_as_numpy_array input_batch)
                | None \<Rightarrow> example_as_numpy_array input_batch)
               [Leaf (example_tensor [3]), Dict [(''x'', Leaf (example_tensor [7, 2]))]]"
    using batches_one_per_input [THEN conjunct1, of example_as_numpy_array
        "example_input\<lparr>input_dispatcher := Some example_padding_dispatcher\<rparr>" list_next 5
        "[Leaf (example_tensor [3]), Dict [(''x'', Leaf (example_tensor [7, 2]))]]"]
    unfolding t .
  have b: "take_iter (batches_next example_as_numpy_array example_input list_next) 5
             [Leaf (example_tensor [3]), Dict [(''x'', Leaf (example_tensor [7, 2]))]]
           = map (\<lambda>input_batch.
                case input_dispatcher example_input of
                  Some d \<Rightarrow> logical_to_physical_batch d (example_as_numpy_array input_batch)
                | None \<Rightarrow> example_as_numpy_array input_batch)
               [Leaf (example_tensor [3]), Dict [(''x'', Leaf (example_tensor [7, 2]))]]"
    using batches_one_per_input [THEN conjunct1, of example_as_numpy_array example_input list_next 5
        "[Leaf (example_tensor [3]), Dict [(''x'', Leaf (example_tensor [7, 2]))]]"]
    unfolding t .
  show ?thesis
    unfolding a b
    by (simp add: example_input_def example_padding_dispatcher_def example_as_numpy_array_def
        example_tensor_def)
qed

section \<open>Properties of \<open>tpu_attention_benchmark.py\<close>\<close>

subsection \<open>\<open>_time_call\<close>\<close>

lemma repeat_call_funpow: "repeat_call fn n s = (fn ^^ n) s"
  by (induction n arbitrary: s) (simp_all add: funpow_swap1)

lemma repeat_call_counting:
  "repeat_call (counting fn) n cs = (fst cs + n, repeat_call fn n (snd cs))"
  by (induction n arbitrary: cs) (simp_all add: counting_def)

lemma calls_repeat_ext: "calls (repeat_call (ext dur c) n w) = calls w @ replicate n c"
  by (induction n arbitrary: w) (simp_all add: ext_def replicate_app_Cons_same)

lemma stdout_repeat_ext: "stdout (repeat_call (ext dur c) n w) = stdout w"
  by (induction n arbitrary: w) (simp_all add: ext_def)

lemma time_call_ext:
  "0 < num_iters \<Longrightarrow>
   \<exists>t w'. time_call clock (ext dur c) num_iters w = (Inr t, w')
     \<and> calls w' = calls w @ replicate (Suc (nat num_iters)) c \<and> stdout w' = stdout w"
  by (simp add: time_call_def Let_def calls_repeat_ext stdout_repeat_ext ext_def
      replicate_app_Cons_same)

text \<open>
  C9. For every callable and every \<open>num_iters \<ge> 1\<close>, \<open>_time_call\<close> runs the callable
  \<open>num_iters + 1\<close> times, once before the clock is first read and \<open>num_iters\<close> times
  after, and returns the time between the two readings of the clock divided by
  \<open>num_iters\<close>. A counter put on the callable ends \<open>num_iters + 1\<close> higher, and \<open>6\<close>
  higher under the default \<open>num_iters = 5\<close>.
\<close>

theorem time_call_invocations:
  assumes "1 \<le> num_iters"
  shows "time_call perf_counter fn num_iters s =
           (Inr ((perf_counter ((fn ^^ (nat num_iters + 1)) s) - perf_counter (fn s))
                  / real_of_int num_iters),
            (fn ^^ (nat num_iters + 1)) s)
       \<and> fst (snd (time_call (\<lambda>cs. perf_counter (snd cs)) (counting fn) num_iters (c, s)))
           = c + (nat num_iters + 1)
       \<and> fst (snd (time_call (\<lambda>cs. perf_counter (snd cs)) (counting fn) default_num_iters (c, s)))
           = c + 6"
proof -
  have result: "time_call perf_counter fn num_iters s =
           (Inr ((perf_counter ((fn ^^ (nat num_iters + 1)) s) - perf_counter (fn s))
                  / real_of_int num_iters),
            (fn ^^ (nat num_iters + 1)) s)"
    using assms by (simp add: time_call_def Let_def repeat_call_funpow funpow_swap1)
  have count: "fst (snd (time_call pc (counting fn) k (c, s))) = c + (nat k + 1)"
    for pc and k
    by (simp add: time_call_def Let_def repeat_call_counting) (simp add: counting_def)
  show ?thesis
    using result count [of _ num_iters] count [of _ default_num_iters]
    by (simp add: default_num_iters_def)
qed

theorem time_call_invocations_witness:
  "(1::int) \<le> 5
   \<and> time_call (\<lambda>t. t) (\<lambda>t. t + 2) 5 (0::real) = (Inr 2, 12)
   \<and> fst (snd (time_call (\<lambda>cs. snd cs) (counting (\<lambda>t. t + 2)) 5 (0, 0::real))) = 6"
proof -
  have h: "(1::int) \<le> 5" by simp
  have n: "((\<lambda>t. t + 2) ^^ 6) (0::real) = 12" by (simp add: eval_nat_numeral)
  show ?thesis
    using time_call_invocations [OF h, of "\<lambda>t. t" "\<lambda>t. t + 2" "0::real" 0]
    by (simp add: n)
qed

subsection \<open>\<open>_benchmark\<close> and the script\<close>

text \<open>
  C8. Run on a backend other than \<open>tpu\<close>, the script ends in an \<open>AssertionError\<close> with
  the world as it found it: nothing was called, nothing printed.
\<close>

theorem main_requires_tpu:
  assumes "default_backend \<noteq> ''tpu''"
  shows "main dur default_backend device_kind w = (Some AssertionError, w)"
  using assms by (simp add: main_def)

theorem main_requires_tpu_witness:
  "''cpu'' \<noteq> ''tpu''
   \<and> main example_dur ''cpu'' ''cpu'' example_world = (Some AssertionError, example_world)"
proof -
  have h: "''cpu'' \<noteq> ''tpu''" by simp
  show ?thesis
    using h main_requires_tpu [OF h, of example_dur "''cpu''" example_world] by simp
qed

lemma filter_pass_replicate: "is_pass c \<Longrightarrow> filter is_pass (replicate n c) = replicate n c"
  by simp

lemma benchmark_timings_result:
  "\<exists>w' t1 t2 t3 t4 w1 w2 w3.
      benchmark_timings dur a w = (None, w')
    \<and> time_call clock (ext dur RefFwd) default_num_iters w1 = (Inr t1, w2)
    \<and> time_call clock (ext dur FlashFwd) default_num_iters w2 = (Inr t2, w3)
    \<and> (kv_cache_type a = None \<longrightarrow>
          (\<exists>w4 w5 w6. time_call clock (ext dur RefBwd) default_num_iters w4 = (Inr t3, w5)
             \<and> time_call clock (ext dur FlashBwd) default_num_iters w5 = (Inr t4, w6)))
    \<and> stdout w' = stdout w @ FwdTimes t1 t2 # (if kv_cache_type a = None then [BwdTimes t3 t4] else [])
    \<and> filter is_pass (calls w') = filter is_pass (calls w) @ replicate 6 RefFwd @ replicate 6 FlashFwd
         @ (if kv_cache_type a = None then replicate 6 RefBwd @ replicate 6 FlashBwd else [])"
proof -
  define w1 where "w1 = ext dur (FlashAttentionImplementation (block_size a) (kv_cache_type a))
                          (ext dur (InstantiateReferenceMHA (block_size a)) w)"
  have w1: "stdout w1 = stdout w" "filter is_pass (calls w1) = filter is_pass (calls w)"
    by (simp_all add: w1_def ext_def)
  have pos: "0 < default_num_iters" "Suc (nat default_num_iters) = 6"
    by (simp_all add: default_num_iters_def)
  obtain t1 w2 where 1: "time_call clock (ext dur RefFwd) default_num_iters w1 = (Inr t1, w2)"
      "calls w2 = calls w1 @ replicate 6 RefFwd" "stdout w2 = stdout w1"
    using time_call_ext [OF pos(1), of dur RefFwd w1] pos(2) by auto
  obtain t2 w3 where 2: "time_call clock (ext dur FlashFwd) default_num_iters w2 = (Inr t2, w3)"
      "calls w3 = calls w2 @ replicate 6 FlashFwd" "stdout w3 = stdout w2"
    using time_call_ext [OF pos(1), of dur FlashFwd w2] pos(2) by auto
  define w4 where "w4 = print (FwdTimes t1 t2) w3"
  have w4: "calls w4 = calls w3" "stdout w4 = stdout w3 @ [FwdTimes t1 t2]"
    by (simp_all add: w4_def print_def)
  obtain t3 w5 where 3: "time_call clock (ext dur RefBwd) default_num_iters w4 = (Inr t3, w5)"
      "calls w5 = calls w4 @ replicate 6 RefBwd" "stdout w5 = stdout w4"
    using time_call_ext [OF pos(1), of dur RefBwd w4] pos(2) by auto
  obtain t4 w6 where 4: "time_call clock (ext dur FlashBwd) default_num_iters w5 = (Inr t4, w6)"
      "calls w6 = calls w5 @ replicate 6 FlashBwd" "stdout w6 = stdout w5"
    using time_call_ext [OF pos(1), of dur FlashBwd w5] pos(2) by auto
  have run: "benchmark_timings dur a w =
      (None, if kv_cache_type a = None then print (BwdTimes t3 t4) w6 else w4)"
    using 1(1) 2(1) 3(1) 4(1)
    by (simp add: benchmark_timings_def Let_def w1_def [symmetric] w4_def [symmetric])
  define w' where "w' = (if kv_cache_type a = None then print (BwdTimes t3 t4) w6 else w4)"
  have A: "benchmark_timings dur a w = (None, w')"
    using run by (simp add: w'_def)
  have B: "stdout w' = stdout w @ FwdTimes t1 t2 # (if kv_cache_type a = None then [BwdTimes t3 t4] else [])"
    by (simp add: w'_def print_def 4 3 w4 2 1 w1)
  have C: "filter is_pass (calls w') = filter is_pass (calls w) @ replicate 6 RefFwd @ replicate 6 FlashFwd
         @ (if kv_cache_type a = None then replicate 6 RefBwd @ replicate 6 FlashBwd else [])"
    by (simp add: w'_def print_def 4 3 w4 2 1 w1)
  have D: "kv_cache_type a = None \<longrightarrow>
          (\<exists>w4 w5 w6. time_call clock (ext dur RefBwd) default_num_iters w4 = (Inr t3, w5)
             \<and> time_call clock (ext dur FlashBwd) default_num_iters w5 = (Inr t4, w6))"
    using 3(1) 4(1) by blast
  show ?thesis
    by (intro exI conjI) (rule A 1(1) 2(1) D B C)+
qed

lemma benchmark_supported:
  assumes "kv_cache_type a = None \<or> kv_cache_type a = Some KVCache
           \<or> (kv_cache_type a = Some PagedKVCache \<and> page_size a \<noteq> None)"
  shows "\<exists>w' t1 t2 t3 t4 w1 w2 w3.
      benchmark dur a w = (None, w')
    \<and> time_call clock (ext dur RefFwd) default_num_iters w1 = (Inr t1, w2)
    \<and> time_call clock (ext dur FlashFwd) default_num_iters w2 = (Inr t2, w3)
    \<and> (kv_cache_type a = None \<longrightarrow>
          (\<exists>w4 w5 w6. time_call clock (ext dur RefBwd) default_num_iters w4 = (Inr t3, w5)
             \<and> time_call clock (ext dur FlashBwd) default_num_iters w5 = (Inr t4, w6)))
    \<and> stdout w' = stdout w @ FwdTimes t1 t2 # (if kv_cache_type a = None then [BwdTimes t3 t4] else [])
    \<and> filter is_pass (calls w') = filter is_pass (calls w) @ replicate 6 RefFwd @ replicate 6 FlashFwd
         @ (if kv_cache_type a = None then replicate 6 RefBwd @ replicate 6 FlashBwd else [])"
proof -
  obtain g where run: "benchmark dur a w = benchmark_timings dur a (ext dur g w)"
      and g: "\<not> is_pass g"
    using assms by (auto simp: benchmark_def Let_def)
  have "stdout (ext dur g w) = stdout w" "filter is_pass (calls (ext dur g w)) = filter is_pass (calls w)"
    using g by (simp_all add: ext_def)
  then show ?thesis
    using benchmark_timings_result [of dur a "ext dur g w"] run by simp
qed

lemma main_loop_forward_only:
  "\<exists>w'. main_loop dur device_kind configs w = (None, w')
     \<and> filter is_bwd_line (stdout w') = filter is_bwd_line (stdout w)
     \<and> length (filter is_fwd_line (stdout w')) = length (filter is_fwd_line (stdout w)) + length configs
     \<and> filter is_pass (calls w') = filter is_pass (calls w)
          @ concat (replicate (length configs) (replicate 6 RefFwd @ replicate 6 FlashFwd))"
proof (induction configs arbitrary: w)
  case Nil
  show ?case by simp
next
  case (Cons cfg configs)
  obtain name heads kv_heads head_dim where cfg: "cfg = (name, heads, kv_heads, head_dim)"
    by (cases cfg) auto
  define a where "a = \<lparr>batch_size = 2, seq_len = 1024 * 8, block_size = 4 * 128,
              num_heads = heads, per_head_dim = head_dim, num_kv_heads = kv_heads,
              kv_cache_type = Some KVCache, causal = True, use_bias = False,
              sliding_window_size = Some 4096, page_size = None\<rparr>"
  define w0 where "w0 = print (Benchmarking name device_kind) w"
  have kv: "kv_cache_type a = Some KVCache"
    by (simp add: a_def)
  have w0: "stdout w0 = stdout w @ [Benchmarking name device_kind]" "calls w0 = calls w"
    by (simp_all add: w0_def print_def)
  obtain w1 t1 t2 where 1: "benchmark dur a w0 = (None, w1)"
      "stdout w1 = stdout w0 @ [FwdTimes t1 t2]"
      "filter is_pass (calls w1) = filter is_pass (calls w0) @ replicate 6 RefFwd @ replicate 6 FlashFwd"
    using benchmark_supported [of a dur w0] kv by auto
  obtain w2 where 2: "main_loop dur device_kind configs w1 = (None, w2)"
      "filter is_bwd_line (stdout w2) = filter is_bwd_line (stdout w1)"
      "length (filter is_fwd_line (stdout w2)) = length (filter is_fwd_line (stdout w1)) + length configs"
      "filter is_pass (calls w2) = filter is_pass (calls w1)
          @ concat (replicate (length configs) (replicate 6 RefFwd @ replicate 6 FlashFwd))"
    using Cons.IH [of w1] by auto
  have "main_loop dur device_kind (cfg # configs) w = (None, w2)"
    using 1(1) 2(1) by (simp add: cfg a_def w0_def)
  then show ?case
    using 2 1 w0 by simp
qed

text \<open>
  C7, as stated, fails where \<open>_benchmark\<close> refuses its arguments: with a
  \<open>kv_cache_type\<close> it does not know, it raises before anything is timed or printed.
\<close>

theorem benchmark_unsupported_counterexample:
  "benchmark example_dur (example_args\<lparr>kv_cache_type := Some (OtherKVCache ''RingKVCache'')\<rparr>) example_world
     = (Some NotImplementedError, example_world)
   \<and> stdout example_world = [] \<and> calls example_world = []"
  by (simp add: benchmark_def example_args_def example_world_def)

text \<open>
  C7, amended. For every call of \<open>_benchmark\<close> that passes the two guards
  (\<open>kv_cache_type\<close> is \<open>None\<close>, \<open>KVCache\<close>, or \<open>PagedKVCache\<close> with a \<open>page_size\<close>): no
  exception; the forward passes of the reference and of the flash implementation are
  each run six times by \<open>_time_call\<close> and the two results are printed in one line; the
  backward passes are run, by \<open>_time_call\<close> as well, and their line printed exactly
  when \<open>kv_cache_type\<close> is \<open>None\<close>. The script on a \<open>tpu\<close> backend passes \<open>KVCache\<close> for
  each of its six configurations: it prints six lines of forward times, no line of
  backward times, and runs no backward pass.
\<close>

theorem benchmark_reports:
  assumes "kv_cache_type a = None \<or> kv_cache_type a = Some KVCache
           \<or> (kv_cache_type a = Some PagedKVCache \<and> page_size a \<noteq> None)"
  shows "(\<exists>w' t1 t2 t3 t4 w1 w2 w3.
      benchmark dur a w = (None, w')
    \<and> time_call clock (ext dur RefFwd) default_num_iters w1 = (Inr t1, w2)
    \<and> time_call clock (ext dur FlashFwd) default_num_iters w2 = (Inr t2, w3)
    \<and> (kv_cache_type a = None \<longrightarrow>
          (\<exists>w4 w5 w6. time_call clock (ext dur RefBwd) default_num_iters w4 = (Inr t3, w5)
             \<and> time_call clock (ext dur FlashBwd) default_num_iters w5 = (Inr t4, w6)))
    \<and> stdout w' = stdout w @ FwdTimes t1 t2 # (if kv_cache_type a = None then [BwdTimes t3 t4] else [])
    \<and> filter is_pass (calls w') = filter is_pass (calls w) @ replicate 6 RefFwd @ replicate 6 FlashFwd
         @ (if kv_cache_type a = None then replicate 6 RefBwd @ replicate 6 FlashBwd else []))
   \<and> (\<exists>w'. main dur ''tpu'' device_kind w = (None, w')
     \<and> filter is_bwd_line (stdout w') = filter is_bwd_line (stdout w)
     \<and> length (filter is_fwd_line (stdout w')) = length (filter is_fwd_line (stdout w)) + 6
     \<and> filter is_pass (calls w') = filter is_pass (calls w)
          @ concat (replicate 6 (replicate 6 RefFwd @ replicate 6 FlashFwd)))"
proof -
  have "length BENCHMARK_CONFIGS = 6"
    by (simp add: BENCHMARK_CONFIGS_def)
  then have "\<exists>w'. main dur ''tpu'' device_kind w = (None, w')
     \<and> filter is_bwd_line (stdout w') = filter is_bwd_line (stdout w)
     \<and> length (filter is_fwd_line (stdout w')) = length (filter is_fwd_line (stdout w)) + 6
     \<and> filter is_pass (calls w') = filter is_pass (calls w)
          @ concat (replicate 6 (replicate 6 RefFwd @ replicate 6 FlashFwd))"
    using main_loop_forward_only [of dur device_kind BENCHMARK_CONFIGS w]
    by (simp add: main_def)
  with benchmark_supported [OF assms, of dur w] show ?thesis
    by blast
qed

lemma example_benchmark:
  "benchmark example_dur example_args example_world =
     (None, \<lparr>clock = 63,
             calls = [GenerateAttentionData
                        \<lparr>g_batch_size = 2, g_query_len = 8192, g_kv_len = 8192, g_num_heads = 16,
                         g_per_head_dim = 128, g_num_kv_heads = 16, g_mask_fn = False,
                         g_sliding_window_sz = Some 4096, g_attention_bias_type = None,
                         g_query_offset = 0\<rparr>,
                      InstantiateReferenceMHA 512, FlashAttentionImplementation 512 None]
                     @ replicate 6 RefFwd @ replicate 6 FlashFwd
                     @ replicate 6 RefBwd @ replicate 6 FlashBwd,
             stdout = [FwdTimes 4 1, BwdTimes 4 1]\<rparr>)"
  by (simp add: benchmark_def benchmark_timings_def example_args_def example_world_def
      example_dur_def time_call_def default_num_iters_def Let_def ext_def print_def
      or_else_def falsy_def eval_nat_numeral)

theorem benchmark_reports_witness:
  "(kv_cache_type example_args = None \<or> kv_cache_type example_args = Some KVCache
      \<or> (kv_cache_type example_args = Some PagedKVCache \<and> page_size example_args \<noteq> None))
   \<and> (\<exists>w'. benchmark example_dur example_args example_world = (None, w')
        \<and> stdout w' = [FwdTimes 4 1, BwdTimes 4 1]
        \<and> filter is_pass (calls w') = replicate 6 RefFwd @ replicate 6 FlashFwd
             @ replicate 6 RefBwd @ replicate 6 FlashBwd)
   \<and> (\<exists>w'. main example_dur ''tpu'' ''TPU v5'' example_world = (None, w')
        \<and> filter is_bwd_line (stdout w') = []
        \<and> length (filter is_fwd_line (stdout w')) = 6)"
proof -
  have h: "kv_cache_type example_args = None \<or> kv_cache_type example_args = Some KVCache
      \<or> (kv_cache_type example_args = Some PagedKVCache \<and> page_size example_args \<noteq> None)"
    by (simp add: example_args_def)
  have e: "stdout example_world = []" "calls example_world = []"
    by (simp_all add: example_world_def)
  show ?thesis
    using h benchmark_reports [OF h, of example_dur example_world "''TPU v5''"]
    by (simp add: example_benchmark e) blast
qed

text \<open>
  C10. A \<open>kv_cache_type\<close> other than \<open>None\<close>, \<open>KVCache\<close> and \<open>PagedKVCache\<close> ends
  \<open>_benchmark\<close> in \<open>NotImplementedError\<close> with no call made, so before any attention
  data is generated. Under \<open>PagedKVCache\<close>, a \<open>page_size\<close> of \<open>None\<close> ends it in
  \<open>AssertionError\<close>, again with no call made; with a \<open>page_size\<close> the first call is the
  generation of the paged attention data with that page size.
\<close>

theorem benchmark_guards:
  "(kv_cache_type a = Some (OtherKVCache n) \<longrightarrow> benchmark dur a w = (Some NotImplementedError, w))
   \<and> (kv_cache_type a = Some PagedKVCache \<and> page_size a = None
        \<longrightarrow> benchmark dur a w = (Some AssertionError, w))
   \<and> (kv_cache_type a = Some PagedKVCache \<and> page_size a = Some ps
        \<longrightarrow> (\<exists>g w'. benchmark dur a w = (None, w')
               \<and> take (Suc (length (calls w))) (calls w') = calls w @ [GeneratePagedAttentionData g ps]))"
proof -
  have calls_prefix: "\<exists>w'. benchmark_timings dur a w0 = (None, w') \<and> take (length (calls w0)) (calls w') = calls w0" for w0
    by (auto simp: benchmark_timings_def Let_def time_call_def default_num_iters_def
        calls_repeat_ext ext_def print_def)
  show ?thesis
  proof (intro conjI impI)
    assume "kv_cache_type a = Some (OtherKVCache n)"
    then show "benchmark dur a w = (Some NotImplementedError, w)"
      by (simp add: benchmark_def)
  next
    assume "kv_cache_type a = Some PagedKVCache \<and> page_size a = None"
    then show "benchmark dur a w = (Some AssertionError, w)"
      by (simp add: benchmark_def)
  next
    assume p: "kv_cache_type a = Some PagedKVCache \<and> page_size a = Some ps"
    then obtain g where run: "benchmark dur a w = benchmark_timings dur a (ext dur (GeneratePagedAttentionData g ps) w)"
      by (simp add: benchmark_def)
    obtain w' where w': "benchmark_timings dur a (ext dur (GeneratePagedAttentionData g ps) w) = (None, w')"
      "take (length (calls (ext dur (GeneratePagedAttentionData g ps) w))) (calls w')
         = calls (ext dur (GeneratePagedAttentionData g ps) w)"
      using calls_prefix by blast
    have "take (Suc (length (calls w))) (calls w') = calls w @ [GeneratePagedAttentionData g ps]"
      using w'(2) by (simp add: ext_def)
    with run w'(1) show "\<exists>g w'. benchmark dur a w = (None, w')
               \<and> take (Suc (length (calls w))) (calls w') = calls w @ [GeneratePagedAttentionData g ps]"
      by auto
  qed
qed

theorem benchmark_guards_witness:
  "benchmark example_dur (example_args\<lparr>kv_cache_type := Some (OtherKVCache ''RingKVCache'')\<rparr>) example_world
     = (Some NotImplementedError, example_world)
   \<and> benchmark example_dur (example_args\<lparr>kv_cache_type := Some PagedKVCache\<rparr>) example_world
     = (Some AssertionError, example_world)
   \<and> (\<exists>g w'. benchmark example_dur (example_args\<lparr>kv_cache_type := Some PagedKVCache, page_size := Some 16\<rparr>)
               example_world = (None, w')
        \<and> take (Suc (length (calls example_world))) (calls w')
            = calls example_world @ [GeneratePagedAttentionData g 16])"
  using benchmark_guards [of "example_args\<lparr>kv_cache_type := Some (OtherKVCache ''RingKVCache'')\<rparr>"
        "''RingKVCache''" example_dur example_world 16]
    benchmark_guards [of "example_args\<lparr>kv_cache_type := Some PagedKVCache\<rparr>"
        "''X''" example_dur example_world 16]
    benchmark_guards [of "example_args\<lparr>kv_cache_type := Some PagedKVCache, page_size := Some 16\<rparr>"
        "''X''" example_dur example_world 16]
  by (simp add: example_args_def)

end
